theory Spec2Isabelle
  imports Complex_Main
begin

section \<open>Numbers, configuration and process state of Bot.py\<close>

text \<open>
  A cell of a data frame holds a float or NaN; NaN is modelled by \<open>None\<close> in a cell
  of type \<open>real option\<close>. A comparison with NaN is false in Python, and so are the
  comparisons below; a comparison of two floats is the comparison of the reals they
  denote.
\<close>

definition isna :: "real option \<Rightarrow> bool" where
  "isna v = (v = None)"

definition nan_lt :: "real option \<Rightarrow> real option \<Rightarrow> bool" where
  "nan_lt a b = (case a of None \<Rightarrow> False | Some x \<Rightarrow> (case b of None \<Rightarrow> False | Some y \<Rightarrow> x < y))"

definition nan_le :: "real option \<Rightarrow> real option \<Rightarrow> bool" where
  "nan_le a b = (case a of None \<Rightarrow> False | Some x \<Rightarrow> (case b of None \<Rightarrow> False | Some y \<Rightarrow> x \<le> y))"

definition nan_gt :: "real option \<Rightarrow> real option \<Rightarrow> bool" where
  "nan_gt a b = nan_lt b a"

definition nan_ge :: "real option \<Rightarrow> real option \<Rightarrow> bool" where
  "nan_ge a b = nan_le b a"

text \<open>
  The configuration block (lines 17 to 23). The window sizes are read with \<open>int\<close>; they
  are natural numbers here, and a claim that needs a positive size says so. The spec
  leaves negative sizes to the validation of the configuration.
\<close>

record config =
  START_BALANCE :: real
  RSI_WINDOW :: nat
  MA_SHORT :: nat
  MA_LONG :: nat
  TRADE_AMOUNT :: real

definition default_config :: config where
  "default_config =
     \<lparr>START_BALANCE = 1000, RSI_WINDOW = 14, MA_SHORT = 5, MA_LONG = 20, TRADE_AMOUNT = 10\<rparr>"

text \<open>The two values of the key \<open>direction\<close>: the strings \<open>call\<close> and \<open>put\<close>.\<close>

datatype direction = Call | Put

text \<open>
  The dictionary stored in \<open>open_position\<close> and the dictionary appended to
  \<open>trade_history\<close>; the second has the keys of the first and four more. A time stamp is
  the string that \<open>datetime.utcnow().isoformat()\<close> returns.
\<close>

record position =
  entry_time :: string
  entry_price :: real
  direction :: direction
  amount :: real

record closed_trade = position +
  close_time :: string
  close_price :: real
  profit_amount :: real
  pnl_pips :: real

text \<open>The module's globals (lines 26 to 30).\<close>

record bot =
  balance :: real
  open_position :: "position option"
  trade_history :: "closed_trade list"
  price_series :: "real list"
  tick :: nat

definition initial :: "config \<Rightarrow> bot" where
  "initial cfg =
     \<lparr>balance = START_BALANCE cfg, open_position = None, trade_history = [],
      price_series = [], tick = 0\<rparr>"

text \<open>One row of the data frame that \<open>compute_indicators\<close> returns.\<close>

record row =
  close :: real
  rsi :: "real option"
  ma_short :: "real option"
  ma_long :: "real option"

datatype py_error = IndexError

section \<open>Float arithmetic\<close>

text \<open>
  A float is modelled by the real number it denotes. The arithmetic of the interpreter is
  not under src/; it is the parameter \<open>fp\<close>: the float that a decimal literal denotes,
  the float results of an addition, a subtraction and a multiplication, and
  \<open>round(x, n)\<close>. Every value that the code compares with a threshold or rounds to
  decimals is computed through \<open>fp\<close>. The balance and the profit amount are kept as
  exact reals: no test of the program reads them.
\<close>

record fops =
  flit :: "real \<Rightarrow> real"
  fadd :: "real \<Rightarrow> real \<Rightarrow> real"
  fsub :: "real \<Rightarrow> real \<Rightarrow> real"
  fmul :: "real \<Rightarrow> real \<Rightarrow> real"
  fround :: "real \<Rightarrow> nat \<Rightarrow> real"

text \<open>
  The arithmetic of CPython, for concrete runs: binary64 with rounding to the nearest
  float, a tie going to the even neighbour. \<open>ulp x\<close> is the spacing of the floats at
  the magnitude of \<open>x\<close>: \<open>2^(e - 52)\<close> for \<open>2^e \<le> |x| < 2^(e + 1)\<close>, and
  \<open>2^-1074\<close> below \<open>2^-1022\<close>. From \<open>2^1024\<close> on the interpreter overflows;
  such magnitudes are outside this instance. \<open>round(x, n)\<close> rounds the exact value of
  the float \<open>x\<close> to \<open>n\<close> decimals, a tie going to the even neighbour, and returns the
  float nearest to that decimal.
\<close>

definition round_half_even :: "real \<Rightarrow> int" where
  "round_half_even x =
     (let f = \<lfloor>x\<rfloor>; d = x - of_int f
      in if d < 1 / 2 then f else if 1 / 2 < d then f + 1 else if even f then f else f + 1)"

fun ulp_up :: "nat \<Rightarrow> real \<Rightarrow> real \<Rightarrow> real" where
  "ulp_up 0 x s = s"
| "ulp_up (Suc n) x s = (if x < 1 then ulp_up n (2 * x) (s / 2) else s)"

fun ulp_down :: "nat \<Rightarrow> real \<Rightarrow> real \<Rightarrow> real" where
  "ulp_down 0 x s = s"
| "ulp_down (Suc n) x s = (if 2 \<le> x then ulp_down n (x / 2) (2 * s) else s)"

definition ulp :: "real \<Rightarrow> real" where
  "ulp x =
     (if \<bar>x\<bar> < 1 then ulp_up 1022 \<bar>x\<bar> (1 / 2 ^ 52) else ulp_down 1023 \<bar>x\<bar> (1 / 2 ^ 52))"

definition binary64 :: "real \<Rightarrow> real" where
  "binary64 x = (let u = ulp x in of_int (round_half_even (x / u)) * u)"

definition py_round :: "real \<Rightarrow> nat \<Rightarrow> real" where
  "py_round x n = binary64 (of_int (round_half_even (x * 10 ^ n)) / 10 ^ n)"

definition ieee :: fops where
  "ieee =
     \<lparr>flit = binary64,
      fadd = (\<lambda>x y. binary64 (x + y)),
      fsub = (\<lambda>x y. binary64 (x - y)),
      fmul = (\<lambda>x y. binary64 (x * y)),
      fround = py_round\<rparr>"

section \<open>The price generator\<close>

text \<open>
  \<open>random.uniform(a, b)\<close> is \<open>a + (b - a) * random()\<close>; the draw \<open>u\<close> of
  \<open>random()\<close> is an input of the model. \<open>generate_next_price\<close> is lines 55 to 66.
\<close>

definition uniform :: "fops \<Rightarrow> real \<Rightarrow> real \<Rightarrow> real \<Rightarrow> real" where
  "uniform fp a b u = fadd fp a (fmul fp (fsub fp b a) u)"

definition generate_next_price :: "fops \<Rightarrow> real list \<Rightarrow> real \<Rightarrow> real" where
  "generate_next_price fp ps u =
     (let base = flit fp (11 / 10);
          price = (if ps = []
                   then fadd fp base (uniform fp (- flit fp (5 / 1000)) (flit fp (5 / 1000)) u)
                   else let last_price = List.last ps;
                            shock = uniform fp (- flit fp (8 / 10000)) (flit fp (8 / 10000)) u
                        in fmul fp last_price (fadd fp 1 shock))
      in fround fp price 5)"

section \<open>The indicator engine\<close>

text \<open>
  Modelled from the spec: \<open>rolling(window).mean()\<close> of pandas is not under src/. The
  value at index \<open>i\<close> is the arithmetic mean of the trailing \<open>w\<close> closing prices, and
  is unavailable while fewer than \<open>w\<close> points exist.
\<close>

definition rolling_mean :: "nat \<Rightarrow> real list \<Rightarrow> nat \<Rightarrow> real option" where
  "rolling_mean w xs i =
     (if w = 0 \<or> i + 1 < w \<or> length xs \<le> i then None
      else Some (sum_list (take w (drop (i + 1 - w) xs)) / real w))"

text \<open>
  \<open>compute_indicators\<close> (lines 68 to 75). The RSI column comes from the library
  \<open>ta\<close>; it is the parameter \<open>rsi_of\<close>, which maps the window, the closing prices
  and a row index to the cell of that row.
\<close>

type_synonym rsi_lib = "nat \<Rightarrow> real list \<Rightarrow> nat \<Rightarrow> real option"

definition compute_indicators :: "config \<Rightarrow> rsi_lib \<Rightarrow> real list \<Rightarrow> row list option" where
  "compute_indicators cfg rsi_of prices =
     (if length prices < max (RSI_WINDOW cfg) (MA_LONG cfg) + 1 then None
      else Some (map (\<lambda>i. \<lparr>close = prices ! i,
                            rsi = rsi_of (RSI_WINDOW cfg) prices i,
                            ma_short = rolling_mean (MA_SHORT cfg) prices i,
                            ma_long = rolling_mean (MA_LONG cfg) prices i\<rparr>)
                     [0 ..< length prices]))"

text \<open>
  Modelled from the spec: \<open>RSIIndicator(close, window).rsi()\<close> of the library
  \<open>ta\<close> is not under src/. The spec asks for the relative-strength index over the
  window, the ratio \<open>RS\<close> of the average gain to the average loss taken to the scale
  0 to 100 by \<open>100 - 100 / (1 + RS)\<close>, in the Wilder style with exponential smoothing,
  and for the value 100 where the average loss is zero. The smoothing factor is
  \<open>1 / window\<close>, the first row has neither gain nor loss, and the value is unavailable
  while fewer than \<open>window\<close> rows exist.
\<close>

definition gains :: "real list \<Rightarrow> real list" where
  "gains prices =
     (case prices of [] \<Rightarrow> []
      | p # ps \<Rightarrow> 0 # map (\<lambda>(a, b). max (b - a) 0) (zip prices ps))"

definition losses :: "real list \<Rightarrow> real list" where
  "losses prices =
     (case prices of [] \<Rightarrow> []
      | p # ps \<Rightarrow> 0 # map (\<lambda>(a, b). max (a - b) 0) (zip prices ps))"

fun ewm_from :: "real \<Rightarrow> real \<Rightarrow> real list \<Rightarrow> real list" where
  "ewm_from a y [] = []"
| "ewm_from a y (x # xs) = ((1 - a) * y + a * x) # ewm_from a ((1 - a) * y + a * x) xs"

definition ewm :: "real \<Rightarrow> real list \<Rightarrow> real list" where
  "ewm a xs = (case xs of [] \<Rightarrow> [] | x # xs' \<Rightarrow> x # ewm_from a x xs')"

definition avg_gain :: "nat \<Rightarrow> real list \<Rightarrow> nat \<Rightarrow> real" where
  "avg_gain w prices i = ewm (1 / real w) (gains prices) ! i"

definition avg_loss :: "nat \<Rightarrow> real list \<Rightarrow> nat \<Rightarrow> real" where
  "avg_loss w prices i = ewm (1 / real w) (losses prices) ! i"

definition rsi_wilder :: rsi_lib where
  "rsi_wilder w prices i =
     (if w = 0 \<or> i + 1 < w \<or> length prices \<le> i then None
      else Some (if avg_loss w prices i = 0 then 100
                 else 100 - 100 / (1 + avg_gain w prices i / avg_loss w prices i)))"

section \<open>The signal and position engine\<close>

text \<open>
  \<open>try_take_signal\<close> (lines 77 to 154). The guard of line 82 as a predicate on a row,
  then the locals of the function in the order of the source. The calls of \<open>log\<close>
  print a line and change nothing.
\<close>

definition actionable :: "row \<Rightarrow> bool" where
  "actionable r = (\<not> isna (rsi r) \<and> \<not> isna (ma_short r) \<and> \<not> isna (ma_long r))"

definition prev_row :: "row list \<Rightarrow> row option" where
  "prev_row df = (if 2 \<le> length df then Some (df ! (length df - 2)) else None)"

definition buy_signal :: "row \<Rightarrow> row option \<Rightarrow> bool" where
  "buy_signal last_row prev =
     (nan_lt (rsi last_row) (Some 30) \<and>
      (case prev of None \<Rightarrow> False
       | Some pr \<Rightarrow> nan_le (ma_short pr) (ma_long pr) \<and> nan_gt (ma_short last_row) (ma_long last_row)))"

definition sell_signal :: "row \<Rightarrow> row option \<Rightarrow> bool" where
  "sell_signal last_row prev =
     (nan_gt (rsi last_row) (Some 70) \<and>
      (case prev of None \<Rightarrow> False
       | Some pr \<Rightarrow> nan_ge (ma_short pr) (ma_long pr) \<and> nan_lt (ma_short last_row) (ma_long last_row)))"

definition pnl :: "fops \<Rightarrow> position \<Rightarrow> real \<Rightarrow> real" where
  "pnl fp entry current_price =
     (if direction entry = Call then fmul fp (fsub fp current_price (entry_price entry)) 10000
      else fmul fp (fsub fp (entry_price entry) current_price) 10000)"

definition take_profit :: real where
  "take_profit = 5"

definition stop_loss :: real where
  "stop_loss = - 10"

definition ma_reverse :: "position \<Rightarrow> row \<Rightarrow> row option \<Rightarrow> bool" where
  "ma_reverse entry last_row prev =
     (case prev of None \<Rightarrow> False
      | Some pr \<Rightarrow>
          (direction entry = Call \<and> nan_ge (ma_short pr) (ma_long pr)
             \<and> nan_lt (ma_short last_row) (ma_long last_row))
          \<or> (direction entry = Put \<and> nan_le (ma_short pr) (ma_long pr)
             \<and> nan_gt (ma_short last_row) (ma_long last_row)))"

definition profit_amount_of :: "fops \<Rightarrow> position \<Rightarrow> real \<Rightarrow> real" where
  "profit_amount_of fp entry current_price =
     (pnl fp entry current_price / 10) * (amount entry / 100)"

definition closed_record :: "fops \<Rightarrow> position \<Rightarrow> string \<Rightarrow> real \<Rightarrow> closed_trade" where
  "closed_record fp entry now current_price =
     \<lparr>entry_time = entry_time entry, entry_price = entry_price entry,
      direction = direction entry, amount = amount entry,
      close_time = now, close_price = current_price,
      profit_amount = fround fp (profit_amount_of fp entry current_price) 6,
      pnl_pips = fround fp (pnl fp entry current_price) 3\<rparr>"

definition try_take_signal ::
  "config \<Rightarrow> fops \<Rightarrow> string \<Rightarrow> row list \<Rightarrow> bot \<Rightarrow> py_error + bot" where
  "try_take_signal cfg fp now df s =
     (if df = [] then Inl IndexError
      else
        let last_row = List.last df; prev = prev_row df
        in if isna (rsi last_row) \<or> isna (ma_short last_row) \<or> isna (ma_long last_row) then Inr s
           else
             let current_price = close last_row
             in (case open_position s of
                   None \<Rightarrow>
                     if buy_signal last_row prev then
                       Inr (s\<lparr>open_position :=
                                Some \<lparr>entry_time = now, entry_price = current_price,
                                      direction = Call, amount = TRADE_AMOUNT cfg\<rparr>,
                              balance := balance s - TRADE_AMOUNT cfg\<rparr>)
                     else if sell_signal last_row prev then
                       Inr (s\<lparr>open_position :=
                                Some \<lparr>entry_time = now, entry_price = current_price,
                                      direction = Put, amount = TRADE_AMOUNT cfg\<rparr>,
                              balance := balance s - TRADE_AMOUNT cfg\<rparr>)
                     else Inr s
                 | Some entry \<Rightarrow>
                     if take_profit \<le> pnl fp entry current_price
                        \<or> pnl fp entry current_price \<le> stop_loss
                        \<or> ma_reverse entry last_row prev
                     then
                       Inr (s\<lparr>balance :=
                                balance s + (amount entry + profit_amount_of fp entry current_price),
                              trade_history :=
                                trade_history s @ [closed_record fp entry now current_price],
                              open_position := None\<rparr>)
                     else Inr s))"

section \<open>One iteration of the simulation loop\<close>

text \<open>
  The body of the loop of \<open>simulation_loop\<close> (lines 162 to 171), for one draw of the
  random generator and one reading of the clock; \<open>append_bounded\<close> is the append and
  the pop of lines 164 to 167. The status line and the sleep have no effect on the
  globals. The loop itself never ends; \<open>run_ticks\<close> runs its body once per input.
\<close>

definition append_bounded :: "real list \<Rightarrow> real \<Rightarrow> real list" where
  "append_bounded ps price =
     (let ps1 = ps @ [price] in if 500 < length ps1 then tl ps1 else ps1)"

definition simulation_tick ::
  "config \<Rightarrow> fops \<Rightarrow> rsi_lib \<Rightarrow> real \<times> string \<Rightarrow> bot \<Rightarrow> py_error + bot" where
  "simulation_tick cfg fp rsi_of inp s =
     (let s1 = s\<lparr>tick := tick s + 1\<rparr>;
          price = generate_next_price fp (price_series s1) (fst inp);
          s2 = s1\<lparr>price_series := append_bounded (price_series s1) price\<rparr>
      in case compute_indicators cfg rsi_of (price_series s2) of
           None \<Rightarrow> Inr s2
         | Some df \<Rightarrow> try_take_signal cfg fp (snd inp) df s2)"

fun run_ticks ::
  "config \<Rightarrow> fops \<Rightarrow> rsi_lib \<Rightarrow> (real \<times> string) list \<Rightarrow> bot \<Rightarrow> py_error + bot" where
  "run_ticks cfg fp rsi_of [] s = Inr s"
| "run_ticks cfg fp rsi_of (inp # inps) s =
     (case simulation_tick cfg fp rsi_of inp s of
        Inl e \<Rightarrow> Inl e
      | Inr s' \<Rightarrow> run_ticks cfg fp rsi_of inps s')"

section \<open>Observing a tick\<close>

text \<open>
  What one tick did to the ledger, read off the globals before and after it: a position
  is present that was not there before, or a trade was appended to the history.
\<close>

definition tick_opened :: "bot \<Rightarrow> bot \<Rightarrow> bool" where
  "tick_opened s s' = (open_position s' \<noteq> None \<and> open_position s' \<noteq> open_position s)"

definition tick_closed :: "bot \<Rightarrow> bot \<Rightarrow> bool" where
  "tick_closed s s' = (trade_history s' \<noteq> trade_history s)"

text \<open>
  The ledger action of a tick with the amounts it moves: the stake of the position that
  appeared, or the stake and the profit amount of the position that went away, the profit
  being taken at the price of that tick.
\<close>

datatype action = Hold | Opened real | Closed real real

definition ledger_action :: "fops \<Rightarrow> bot \<Rightarrow> bot \<Rightarrow> action" where
  "ledger_action fp s s' =
     (case open_position s of
        None \<Rightarrow> (case open_position s' of None \<Rightarrow> Hold | Some p \<Rightarrow> Opened (amount p))
      | Some p \<Rightarrow>
          (case open_position s' of
             None \<Rightarrow> Closed (amount p) (profit_amount_of fp p (List.last (price_series s')))
           | Some q \<Rightarrow> Hold))"

fun run_actions ::
  "config \<Rightarrow> fops \<Rightarrow> rsi_lib \<Rightarrow> (real \<times> string) list \<Rightarrow> bot \<Rightarrow> action list" where
  "run_actions cfg fp rsi_of [] s = []"
| "run_actions cfg fp rsi_of (inp # inps) s =
     (case simulation_tick cfg fp rsi_of inp s of
        Inl e \<Rightarrow> []
      | Inr s' \<Rightarrow> ledger_action fp s s' # run_actions cfg fp rsi_of inps s')"

fun open_stake :: "action \<Rightarrow> real" where
  "open_stake (Opened st) = st"
| "open_stake _ = 0"

fun close_credit :: "action \<Rightarrow> real" where
  "close_credit (Closed st pr) = st + pr"
| "close_credit _ = 0"

text \<open>
  The second-to-last row of the frame cannot serve a crossover: it is missing, or one of
  its two moving averages is.
\<close>

definition prev_unavailable :: "row list \<Rightarrow> bool" where
  "prev_unavailable df =
     (case prev_row df of None \<Rightarrow> True | Some pr \<Rightarrow> isna (ma_short pr) \<or> isna (ma_long pr))"

text \<open>A configuration with short windows, and its draws, for concrete runs.\<close>

definition short_config :: config where
  "short_config =
     \<lparr>START_BALANCE = 5, RSI_WINDOW = 2, MA_SHORT = 1, MA_LONG = 2, TRADE_AMOUNT = 10\<rparr>"

definition short_inputs :: "(real \<times> string) list" where
  "short_inputs = [(1 / 2, ''t1''), (0, ''t2''), (9 / 16, ''t3'')]"

text \<open>
  Frames and ledgers for concrete evaluations: a frame whose last row has an RSI of 20
  and an upward cross, frames whose last row closes six pips and five pips above
  1.10000, a frame whose last row has no short moving average, and a ledger holding a
  long position entered at 1.10000.
\<close>

definition short_frame :: "row list" where
  "short_frame =
     [\<lparr>close = 11 / 10, rsi = None, ma_short = Some (11 / 10), ma_long = None\<rparr>,
      \<lparr>close = 109912 / 100000, rsi = Some 0, ma_short = Some (109912 / 100000),
       ma_long = Some (109956 / 100000)\<rparr>,
      \<lparr>close = 109923 / 100000, rsi = Some 20, ma_short = Some (109923 / 100000),
       ma_long = Some (1099175 / 1000000)\<rparr>]"

definition rise_frame :: "row list" where
  "rise_frame =
     [\<lparr>close = binary64 (11 / 10), rsi = Some 50, ma_short = Some (binary64 (11 / 10)),
       ma_long = Some (binary64 (11 / 10))\<rparr>,
      \<lparr>close = binary64 (11006 / 10000), rsi = Some 60,
       ma_short = Some (binary64 (11003 / 10000)),
       ma_long = Some (binary64 (11001 / 10000))\<rparr>]"

definition hold_frame :: "row list" where
  "hold_frame =
     [\<lparr>close = binary64 (11 / 10), rsi = Some 50, ma_short = Some (binary64 (11 / 10)),
       ma_long = Some (binary64 (11 / 10))\<rparr>,
      \<lparr>close = binary64 (11005 / 10000), rsi = Some 60,
       ma_short = Some (binary64 (11003 / 10000)),
       ma_long = Some (binary64 (11001 / 10000))\<rparr>]"

definition gap_frame :: "row list" where
  "gap_frame =
     [\<lparr>close = 11 / 10, rsi = Some 50, ma_short = None, ma_long = Some (11 / 10)\<rparr>,
      \<lparr>close = 11006 / 10000, rsi = Some 60, ma_short = None,
       ma_long = Some (11003 / 10000)\<rparr>]"

definition long_bot :: bot where
  "long_bot =
     \<lparr>balance = 990,
      open_position =
        Some \<lparr>entry_time = ''t0'', entry_price = binary64 (11 / 10), direction = Call,
              amount = 10\<rparr>,
      trade_history = [],
      price_series = [binary64 (11 / 10), binary64 (11006 / 10000)], tick = 2\<rparr>"

text \<open>
  The ledgers after two and after three ticks of the short run, and a configuration
  whose short window is the longest of the three.
\<close>

definition short_bot2 :: bot where
  "short_bot2 =
     \<lparr>balance = 5, open_position = None, trade_history = [],
      price_series = [binary64 (11 / 10), binary64 (109912 / 100000)], tick = 2\<rparr>"

definition short_bot3 :: bot where
  "short_bot3 =
     \<lparr>balance = - 5,
      open_position =
        Some \<lparr>entry_time = ''t3'', entry_price = binary64 (109923 / 100000),
              direction = Call, amount = 10\<rparr>,
      trade_history = [],
      price_series =
        [binary64 (11 / 10), binary64 (109912 / 100000), binary64 (109923 / 100000)],
      tick = 3\<rparr>"

definition wide_config :: config where
  "wide_config =
     \<lparr>START_BALANCE = 5, RSI_WINDOW = 2, MA_SHORT = 3, MA_LONG = 2, TRADE_AMOUNT = 10\<rparr>"

text \<open>
  Twenty-one draws for the default configuration: the first price is 1.10000, the second
  draw is the largest fall, eighteen draws leave the price where it is, and the
  twenty-first is a small rise to 1.09917. The ledgers after twenty and twenty-one of
  these ticks, and the ledger after a twenty-second tick that rises by five pips to
  1.09967.
\<close>

definition default_inputs :: "(real \<times> string) list" where
  "default_inputs =
     [(1 / 2, ''t01''), (0, ''t02''), (1 / 2, ''t03''), (1 / 2, ''t04''), (1 / 2, ''t05''),
      (1 / 2, ''t06''), (1 / 2, ''t07''), (1 / 2, ''t08''), (1 / 2, ''t09''), (1 / 2, ''t10''),
      (1 / 2, ''t11''), (1 / 2, ''t12''), (1 / 2, ''t13''), (1 / 2, ''t14''), (1 / 2, ''t15''),
      (1 / 2, ''t16''), (1 / 2, ''t17''), (1 / 2, ''t18''), (1 / 2, ''t19''), (1 / 2, ''t20''),
      (17 / 32, ''t21'')]"

definition default_bot20 :: bot where
  "default_bot20 =
     \<lparr>balance = 1000, open_position = None, trade_history = [],
      price_series =
        [binary64 (11 / 10), binary64 (109912 / 100000), binary64 (109912 / 100000),
         binary64 (109912 / 100000), binary64 (109912 / 100000), binary64 (109912 / 100000),
         binary64 (109912 / 100000), binary64 (109912 / 100000), binary64 (109912 / 100000),
         binary64 (109912 / 100000), binary64 (109912 / 100000), binary64 (109912 / 100000),
         binary64 (109912 / 100000), binary64 (109912 / 100000), binary64 (109912 / 100000),
         binary64 (109912 / 100000), binary64 (109912 / 100000), binary64 (109912 / 100000),
         binary64 (109912 / 100000), binary64 (109912 / 100000)],
      tick = 20\<rparr>"

definition default_bot21 :: bot where
  "default_bot21 =
     \<lparr>balance = 990,
      open_position =
        Some \<lparr>entry_time = ''t21'', entry_price = binary64 (109917 / 100000),
              direction = Call, amount = 10\<rparr>,
      trade_history = [],
      price_series =
        [binary64 (11 / 10), binary64 (109912 / 100000), binary64 (109912 / 100000),
         binary64 (109912 / 100000), binary64 (109912 / 100000), binary64 (109912 / 100000),
         binary64 (109912 / 100000), binary64 (109912 / 100000), binary64 (109912 / 100000),
         binary64 (109912 / 100000), binary64 (109912 / 100000), binary64 (109912 / 100000),
         binary64 (109912 / 100000), binary64 (109912 / 100000), binary64 (109912 / 100000),
         binary64 (109912 / 100000), binary64 (109912 / 100000), binary64 (109912 / 100000),
         binary64 (109912 / 100000), binary64 (109912 / 100000), binary64 (109917 / 100000)],
      tick = 21\<rparr>"

definition default_bot22 :: bot where
  "default_bot22 =
     \<lparr>balance = 990,
      open_position =
        Some \<lparr>entry_time = ''t21'', entry_price = binary64 (109917 / 100000),
              direction = Call, amount = 10\<rparr>,
      trade_history = [],
      price_series =
        [binary64 (11 / 10), binary64 (109912 / 100000), binary64 (109912 / 100000),
         binary64 (109912 / 100000), binary64 (109912 / 100000), binary64 (109912 / 100000),
         binary64 (109912 / 100000), binary64 (109912 / 100000), binary64 (109912 / 100000),
         binary64 (109912 / 100000), binary64 (109912 / 100000), binary64 (109912 / 100000),
         binary64 (109912 / 100000), binary64 (109912 / 100000), binary64 (109912 / 100000),
         binary64 (109912 / 100000), binary64 (109912 / 100000), binary64 (109912 / 100000),
         binary64 (109912 / 100000), binary64 (109912 / 100000), binary64 (109917 / 100000),
         binary64 (109967 / 100000)],
      tick = 22\<rparr>"

text \<open>
  What holds of the globals after every tick: the series is bounded, and while a position
  is open the series is long enough for a frame whose last two rows have both moving
  averages.
\<close>

definition ledger_inv :: "config \<Rightarrow> bot \<Rightarrow> bool" where
  "ledger_inv cfg s =
     (length (price_series s) \<le> 500
      \<and> (open_position s \<noteq> None \<longrightarrow>
            max (RSI_WINDOW cfg) (MA_LONG cfg) + 1 \<le> length (price_series s)
            \<and> 0 < MA_SHORT cfg \<and> MA_SHORT cfg + 1 \<le> length (price_series s)
            \<and> 0 < MA_LONG cfg))"

text \<open>The frame that a tick evaluates: the indicators of the series with the new price.\<close>

definition tick_frame :: "config \<Rightarrow> fops \<Rightarrow> rsi_lib \<Rightarrow> real \<times> string \<Rightarrow> bot \<Rightarrow> row list option" where
  "tick_frame cfg fp rsi_of inp s =
     compute_indicators cfg rsi_of
       (append_bounded (price_series s) (generate_next_price fp (price_series s) (fst inp)))"

section \<open>Evaluation rules and basic facts\<close>

lemma ulp_up_numeral:
  "ulp_up (numeral k) x s = (if x < 1 then ulp_up (pred_numeral k) (2 * x) (s / 2) else s)"
  by (simp add: numeral_eq_Suc)

lemma ulp_down_numeral:
  "ulp_down (numeral k) x s = (if 2 \<le> x then ulp_down (pred_numeral k) (x / 2) (2 * s) else s)"
  by (simp add: numeral_eq_Suc)

lemmas round_half_even_evals =
  round_half_even_def [where x = 0]
  round_half_even_def [where x = 1]
  round_half_even_def [where x = "numeral a" for a]
  round_half_even_def [where x = "1 / numeral b" for b]
  round_half_even_def [where x = "numeral a / numeral b" for a b]
  round_half_even_def [where x = "- 1"]
  round_half_even_def [where x = "- numeral a" for a]
  round_half_even_def [where x = "- (1 / numeral b)" for b]
  round_half_even_def [where x = "- (numeral a / numeral b)" for a b]

lemma binary64_zero: "binary64 0 = 0"
  by (simp add: binary64_def round_half_even_def Let_def)

lemmas binary64_evals =
  binary64_zero
  binary64_def [where x = 1]
  binary64_def [where x = "numeral a" for a]
  binary64_def [where x = "1 / numeral b" for b]
  binary64_def [where x = "numeral a / numeral b" for a b]
  binary64_def [where x = "- 1"]
  binary64_def [where x = "- numeral a" for a]
  binary64_def [where x = "- (1 / numeral b)" for b]
  binary64_def [where x = "- (numeral a / numeral b)" for a b]

lemmas float_defs =
  ieee_def py_round_def binary64_evals round_half_even_evals ulp_def ulp_up_numeral
  ulp_down_numeral Let_def

lemmas eval_defs =
  simulation_tick_def generate_next_price_def uniform_def float_defs pnl_def
  append_bounded_def compute_indicators_def rolling_mean_def rsi_wilder_def
  avg_gain_def avg_loss_def gains_def losses_def ewm_def
  try_take_signal_def isna_def prev_row_def buy_signal_def sell_signal_def
  nan_lt_def nan_le_def nan_gt_def nan_ge_def actionable_def
  short_config_def default_config_def initial_def short_inputs_def Let_def upt_rec

subsection \<open>Rounding to binary64 is symmetric, monotone and nearest\<close>

lemma round_half_even_floor:
  "round_half_even x = \<lfloor>x\<rfloor> \<or> round_half_even x = \<lfloor>x\<rfloor> + 1"
  by (simp add: round_half_even_def Let_def)

lemma round_half_even_of_int: "round_half_even (of_int n) = n"
  by (simp add: round_half_even_def Let_def)

lemma round_half_even_mono:
  assumes "a \<le> b"
  shows "round_half_even a \<le> round_half_even b"
proof (cases "\<lfloor>a\<rfloor> = \<lfloor>b\<rfloor>")
  case True
  with assms have "a - of_int \<lfloor>a\<rfloor> \<le> b - of_int \<lfloor>b\<rfloor>"
    by simp
  with True show ?thesis
    by (auto simp: round_half_even_def Let_def)
next
  case False
  with assms have "\<lfloor>a\<rfloor> < \<lfloor>b\<rfloor>"
    by (simp add: floor_mono order.strict_iff_order)
  moreover have "round_half_even a \<le> \<lfloor>a\<rfloor> + 1"
    using round_half_even_floor [of a] by auto
  moreover have "\<lfloor>b\<rfloor> \<le> round_half_even b"
    using round_half_even_floor [of b] by auto
  ultimately show ?thesis
    by linarith
qed

lemma round_half_even_minus: "round_half_even (- x) = - round_half_even x"
proof (cases "x = of_int \<lfloor>x\<rfloor>")
  case True
  then obtain n :: int where x: "x = of_int n"
    by blast
  have "round_half_even (of_int (- n)) = - n"
    by (rule round_half_even_of_int)
  then show ?thesis
    by (simp add: x round_half_even_of_int)
next
  case False
  then have f: "\<lfloor>- x\<rfloor> = - \<lfloor>x\<rfloor> - 1"
    by (metis Ints_of_int ceiling_altdef ceiling_def diff_minus_eq_add minus_add_distrib minus_minus
        uminus_add_conv_diff)
  define n where "n = \<lfloor>x\<rfloor>"
  define d where "d = x - of_int n"
  have d: "0 < d" "d < 1"
    using False by (auto simp: d_def n_def less_le) linarith+
  have x: "x = of_int n + d"
    by (simp add: d_def)
  have e: "even (- n - 1) \<longleftrightarrow> odd n"
    by simp
  show ?thesis
    using d e unfolding round_half_even_def Let_def f n_def [symmetric]
    by (auto simp: x)
qed

lemma ulp_up_char:
  "\<exists>k \<le> n. ulp_up n x s = s / 2 ^ k \<and> (k < n \<longrightarrow> 1 \<le> 2 ^ k * x) \<and> (0 < k \<longrightarrow> 2 ^ k * x < 2)"
proof (induction n arbitrary: x s)
  case 0
  show ?case by simp
next
  case (Suc n)
  show ?case
  proof (cases "x < 1")
    case False
    then have "ulp_up (Suc n) x s = s / 2 ^ 0 \<and> (0 < Suc n \<longrightarrow> 1 \<le> 2 ^ 0 * x)
                 \<and> ((0 :: nat) < 0 \<longrightarrow> 2 ^ 0 * x < 2)"
      by simp
    then show ?thesis
      by blast
  next
    case True
    from Suc.IH [of "2 * x" "s / 2"]
    obtain k where k: "k \<le> n" and r: "ulp_up n (2 * x) (s / 2) = s / 2 / 2 ^ k"
      and lo: "k < n \<longrightarrow> 1 \<le> 2 ^ k * (2 * x)" and hi: "0 < k \<longrightarrow> 2 ^ k * (2 * x) < 2"
      by blast
    have hi': "2 ^ Suc k * x < 2"
    proof (cases "k = 0")
      case True
      with \<open>x < 1\<close> show ?thesis by simp
    next
      case False
      with hi show ?thesis by (simp add: mult.assoc mult.left_commute)
    qed
    from True r have "ulp_up (Suc n) x s = s / 2 ^ Suc k"
      by simp
    moreover from lo have "Suc k < Suc n \<longrightarrow> 1 \<le> 2 ^ Suc k * x"
      by (simp add: mult.assoc mult.left_commute)
    ultimately show ?thesis
      using k hi' by (intro exI [of _ "Suc k"]) simp
  qed
qed

lemma ulp_down_char:
  "1 \<le> x \<Longrightarrow> \<exists>k \<le> n. ulp_down n x s = s * 2 ^ k \<and> (k < n \<longrightarrow> x < 2 * 2 ^ k) \<and> 2 ^ k \<le> x"
proof (induction n arbitrary: x s)
  case 0
  then show ?case by simp
next
  case (Suc n)
  show ?case
  proof (cases "2 \<le> x")
    case False
    with Suc.prems have "ulp_down (Suc n) x s = s * 2 ^ 0 \<and> (0 < Suc n \<longrightarrow> x < 2 * 2 ^ 0)
                 \<and> 2 ^ 0 \<le> x"
      by simp
    then show ?thesis
      by blast
  next
    case True
    then have "1 \<le> x / 2"
      by simp
    from Suc.IH [OF this, of "2 * s"]
    obtain k where k: "k \<le> n" and r: "ulp_down n (x / 2) (2 * s) = 2 * s * 2 ^ k"
      and hi: "k < n \<longrightarrow> x / 2 < 2 * 2 ^ k" and lo: "2 ^ k \<le> x / 2"
      by blast
    from True r have "ulp_down (Suc n) x s = s * 2 ^ Suc k"
      by simp
    moreover from hi have "Suc k < Suc n \<longrightarrow> x < 2 * 2 ^ Suc k"
      by simp
    moreover from lo have "2 ^ Suc k \<le> x"
      by simp
    ultimately show ?thesis
      using k by (intro exI [of _ "Suc k"]) simp
  qed
qed

text \<open>The spacing as a power of two, with the binade of the argument.\<close>

lemma ulp_gen_char:
  fixes M N P :: nat
  assumes u: "u = (if \<bar>x\<bar> < 1 then ulp_up M \<bar>x\<bar> (1 / 2 ^ P) else ulp_down N \<bar>x\<bar> (1 / 2 ^ P))"
    and M: "0 < M"
  shows "\<exists>g \<le> M + N. u = 2 ^ g / (2 ^ M * 2 ^ P)
           \<and> (0 < g \<longrightarrow> 2 ^ g / 2 ^ M \<le> \<bar>x\<bar>) \<and> (g < M + N \<longrightarrow> \<bar>x\<bar> < 2 * 2 ^ g / 2 ^ M)"
proof (cases "\<bar>x\<bar> < 1")
  case True
  from ulp_up_char [of M "\<bar>x\<bar>" "1 / 2 ^ P"]
  obtain k where k: "k \<le> M" and r: "ulp_up M \<bar>x\<bar> (1 / 2 ^ P) = 1 / 2 ^ P / 2 ^ k"
    and lo: "k < M \<longrightarrow> 1 \<le> 2 ^ k * \<bar>x\<bar>" and hi: "0 < k \<longrightarrow> 2 ^ k * \<bar>x\<bar> < 2"
    by blast
  have kpos: "0 < k"
  proof (rule ccontr)
    assume "\<not> 0 < k"
    with lo M True show False by simp
  qed
  define g where "g = M - k"
  have Mg: "(2 :: real) ^ M = 2 ^ g * 2 ^ k"
    using k by (simp add: g_def power_add [symmetric])
  have "u = 2 ^ g / (2 ^ M * 2 ^ P)"
    using True r by (simp add: u Mg)
  moreover have "2 ^ g / 2 ^ M \<le> \<bar>x\<bar>" if "0 < g"
  proof -
    from that k have "k < M" by (simp add: g_def)
    with lo have "1 \<le> 2 ^ k * \<bar>x\<bar>" by simp
    then show ?thesis
      by (simp add: Mg field_simps)
  qed
  moreover have "\<bar>x\<bar> < 2 * 2 ^ g / 2 ^ M"
    using hi kpos by (simp add: Mg field_simps)
  moreover have "g \<le> M + N"
    by (simp add: g_def)
  ultimately show ?thesis
    by blast
next
  case False
  then have "1 \<le> \<bar>x\<bar>"
    by simp
  from ulp_down_char [OF this, of N "1 / 2 ^ P"]
  obtain k where k: "k \<le> N" and r: "ulp_down N \<bar>x\<bar> (1 / 2 ^ P) = 1 / 2 ^ P * 2 ^ k"
    and hi: "k < N \<longrightarrow> \<bar>x\<bar> < 2 * 2 ^ k" and lo: "2 ^ k \<le> \<bar>x\<bar>"
    by blast
  define g where "g = M + k"
  have gM: "(2 :: real) ^ g = 2 ^ M * 2 ^ k"
    by (simp add: g_def power_add)
  have "u = 2 ^ g / (2 ^ M * 2 ^ P)"
    using False r by (simp add: u gM)
  moreover have "2 ^ g / 2 ^ M \<le> \<bar>x\<bar>"
    using lo by (simp add: gM)
  moreover have "\<bar>x\<bar> < 2 * 2 ^ g / 2 ^ M" if "g < M + N"
  proof -
    from that have "k < N" by (simp add: g_def)
    with hi show ?thesis by (simp add: gM)
  qed
  moreover have "g \<le> M + N"
    using k by (simp add: g_def)
  ultimately show ?thesis
    by blast
qed

lemma round_gen_mono:
  fixes M N P :: nat
  assumes ux: "ux = (if \<bar>x\<bar> < 1 then ulp_up M \<bar>x\<bar> (1 / 2 ^ P) else ulp_down N \<bar>x\<bar> (1 / 2 ^ P))"
    and uy: "uy = (if \<bar>y\<bar> < 1 then ulp_up M \<bar>y\<bar> (1 / 2 ^ P) else ulp_down N \<bar>y\<bar> (1 / 2 ^ P))"
    and M: "0 < M" and x: "0 \<le> x" and xy: "x \<le> y"
  shows "of_int (round_half_even (x / ux)) * ux \<le> of_int (round_half_even (y / uy)) * uy"
proof -
  define D :: real where "D = 2 ^ M * 2 ^ P"
  have D: "0 < D"
    by (simp add: D_def)
  from ulp_gen_char [OF ux M]
  obtain gx where gx: "gx \<le> M + N" and ux': "ux = 2 ^ gx / D"
    and xlo: "0 < gx \<longrightarrow> 2 ^ gx / 2 ^ M \<le> \<bar>x\<bar>"
    and xhi: "gx < M + N \<longrightarrow> \<bar>x\<bar> < 2 * 2 ^ gx / 2 ^ M"
    unfolding D_def by blast
  from ulp_gen_char [OF uy M]
  obtain gy where gy: "gy \<le> M + N" and uy': "uy = 2 ^ gy / D"
    and ylo: "0 < gy \<longrightarrow> 2 ^ gy / 2 ^ M \<le> \<bar>y\<bar>"
    and yhi: "gy < M + N \<longrightarrow> \<bar>y\<bar> < 2 * 2 ^ gy / 2 ^ M"
    unfolding D_def by blast
  from x xy have ax: "\<bar>x\<bar> = x" and ay: "\<bar>y\<bar> = y"
    by simp_all
  have uxp: "0 < ux" and uyp: "0 < uy"
    using D by (simp_all add: ux' uy')
  consider "gx = gy" | "gx < gy" | "gy < gx"
    by linarith
  then show ?thesis
  proof cases
    case 1
    then have same: "ux = uy"
      by (simp add: ux' uy')
    from xy uyp have "x / uy \<le> y / uy"
      by (simp add: divide_right_mono)
    then have "round_half_even (x / uy) \<le> round_half_even (y / uy)"
      by (rule round_half_even_mono)
    then have "(of_int (round_half_even (x / uy)) :: real) \<le> of_int (round_half_even (y / uy))"
      by simp
    with uyp show ?thesis
      unfolding same by (simp add: mult_right_mono)
  next
    case 2
    define B :: real where "B = 2 ^ gy / 2 ^ M"
    from 2 have gy0: "0 < gy" and gxN: "gx < M + N"
      using gy by simp_all
    from ylo gy0 ay have By: "B \<le> y"
      by (simp add: B_def)
    from 2 have "Suc gx \<le> gy"
      by simp
    then have "(2 :: real) ^ Suc gx \<le> 2 ^ gy"
      by (rule power_increasing) simp
    then have "2 * 2 ^ gx / 2 ^ M \<le> B"
      by (simp add: B_def divide_right_mono)
    with xhi gxN ax have xB: "x \<le> B"
      by simp
    have Buy: "B / uy = of_int (2 ^ P)"
      by (simp add: B_def uy' D_def)
    from 2 obtain j where j: "gy = gx + j"
      using less_imp_add_positive by blast
    have Bux: "B / ux = of_int (2 ^ P * 2 ^ j)"
      by (simp add: B_def ux' D_def j power_add)
    from By uyp have "B / uy \<le> y / uy"
      by (simp add: divide_right_mono)
    then have "round_half_even (B / uy) \<le> round_half_even (y / uy)"
      by (rule round_half_even_mono)
    then have "(of_int (round_half_even (B / uy)) :: real) \<le> of_int (round_half_even (y / uy))"
      by simp
    then have "of_int (round_half_even (B / uy)) * uy \<le> of_int (round_half_even (y / uy)) * uy"
      using uyp by (simp add: mult_right_mono)
    moreover have "of_int (round_half_even (B / uy)) * uy = B"
      unfolding Buy round_half_even_of_int using Buy uyp by (simp add: field_simps)
    ultimately have up: "B \<le> of_int (round_half_even (y / uy)) * uy"
      by simp
    from xB uxp have "x / ux \<le> B / ux"
      by (simp add: divide_right_mono)
    then have "round_half_even (x / ux) \<le> round_half_even (B / ux)"
      by (rule round_half_even_mono)
    then have "(of_int (round_half_even (x / ux)) :: real) \<le> of_int (round_half_even (B / ux))"
      by simp
    then have "of_int (round_half_even (x / ux)) * ux \<le> of_int (round_half_even (B / ux)) * ux"
      using uxp by (simp add: mult_right_mono)
    moreover have "of_int (round_half_even (B / ux)) * ux = B"
      unfolding Bux round_half_even_of_int using Bux uxp by (simp add: field_simps)
    ultimately have "of_int (round_half_even (x / ux)) * ux \<le> B"
      by simp
    with up show ?thesis
      by simp
  next
    case 3
    then have gx0: "0 < gx" and gyN: "gy < M + N"
      using gx by simp_all
    from 3 have "Suc gy \<le> gx"
      by simp
    then have "(2 :: real) ^ Suc gy \<le> 2 ^ gx"
      by (rule power_increasing) simp
    then have "2 * 2 ^ gy / 2 ^ M \<le> (2 :: real) ^ gx / 2 ^ M"
      by (simp add: divide_right_mono)
    with xlo gx0 ax yhi gyN ay have "y < x"
      by simp
    with xy show ?thesis
      by simp
  qed
qed

lemma ulp_minus: "ulp (- x) = ulp x"
  by (simp add: ulp_def)

lemma binary64_minus: "binary64 (- x) = - binary64 x"
  by (simp add: binary64_def ulp_minus round_half_even_minus Let_def)

lemma binary64_mono_nonneg:
  assumes "0 \<le> x" and "x \<le> y"
  shows "binary64 x \<le> binary64 y"
proof -
  have "of_int (round_half_even (x / ulp x)) * ulp x
          \<le> of_int (round_half_even (y / ulp y)) * ulp y"
  proof (rule round_gen_mono [where M = 1022 and N = 1023 and P = 52, OF _ _ _ assms])
    show "ulp x = (if \<bar>x\<bar> < 1 then ulp_up 1022 \<bar>x\<bar> (1 / 2 ^ 52)
                   else ulp_down 1023 \<bar>x\<bar> (1 / 2 ^ 52))"
      by (rule ulp_def)
    show "ulp y = (if \<bar>y\<bar> < 1 then ulp_up 1022 \<bar>y\<bar> (1 / 2 ^ 52)
                   else ulp_down 1023 \<bar>y\<bar> (1 / 2 ^ 52))"
      by (rule ulp_def)
    show "(0 :: nat) < 1022"
      by simp
  qed
  then show ?thesis
    by (simp add: binary64_def Let_def)
qed

lemma binary64_nonneg: "0 \<le> x \<Longrightarrow> 0 \<le> binary64 x"
  using binary64_mono_nonneg [of 0 x] by (simp add: binary64_zero)

lemma binary64_mono:
  assumes "x \<le> y"
  shows "binary64 x \<le> binary64 y"
proof (cases "0 \<le> x")
  case True
  from True assms show ?thesis
    by (rule binary64_mono_nonneg)
next
  case False
  show ?thesis
  proof (cases "0 \<le> y")
    case True
    from False have "0 \<le> binary64 (- x)"
      by (intro binary64_nonneg) simp
    then have "binary64 x \<le> 0"
      by (simp add: binary64_minus)
    with binary64_nonneg [OF True] show ?thesis
      by simp
  next
    case False
    with assms have "0 \<le> - y" and "- y \<le> - x"
      by simp_all
    then have "binary64 (- y) \<le> binary64 (- x)"
      by (rule binary64_mono_nonneg)
    then show ?thesis
      by (simp add: binary64_minus)
  qed
qed

lemma round_half_even_close: "\<bar>of_int (round_half_even x) - x\<bar> \<le> 1 / 2"
  by (auto simp: round_half_even_def Let_def; linarith)

lemma ulp_gen_pos:
  fixes M N P :: nat
  assumes "u = (if \<bar>x\<bar> < 1 then ulp_up M \<bar>x\<bar> (1 / 2 ^ P) else ulp_down N \<bar>x\<bar> (1 / 2 ^ P))"
    and "0 < M"
  shows "0 < u"
proof -
  from ulp_gen_char [OF assms] obtain g :: nat where "u = 2 ^ g / (2 ^ M * 2 ^ P)"
    by auto
  then show ?thesis
    by simp
qed

lemma ulp_pos: "0 < ulp x"
  by (rule ulp_gen_pos [OF ulp_def]) simp

text \<open>The rounded value is at most half a spacing away.\<close>

lemma binary64_close: "\<bar>binary64 x - x\<bar> \<le> ulp x / 2"
proof -
  define v where "v = ulp x"
  have v: "0 < v"
    unfolding v_def by (rule ulp_pos)
  have "binary64 x - x = (of_int (round_half_even (x / v)) - x / v) * v"
    using v by (simp add: binary64_def Let_def v_def [symmetric] field_simps)
  then have "\<bar>binary64 x - x\<bar> = \<bar>of_int (round_half_even (x / v)) - x / v\<bar> * v"
    using v by (simp add: abs_mult)
  also have "\<dots> \<le> 1 / 2 * v"
    using v round_half_even_close [of "x / v"] by (intro mult_right_mono) simp_all
  finally show ?thesis
    by (simp add: v_def)
qed

lemma py_round_mono: "x \<le> y \<Longrightarrow> py_round x n \<le> py_round y n"
proof -
  assume "x \<le> y"
  then have "x * 10 ^ n \<le> y * 10 ^ n"
    by simp
  then have "round_half_even (x * 10 ^ n) \<le> round_half_even (y * 10 ^ n)"
    by (rule round_half_even_mono)
  then have "(of_int (round_half_even (x * 10 ^ n)) :: real) / 10 ^ n
               \<le> of_int (round_half_even (y * 10 ^ n)) / 10 ^ n"
    by (simp add: divide_right_mono)
  then show ?thesis
    unfolding py_round_def by (rule binary64_mono)
qed

lemma uniform_ieee_range:
  assumes u: "0 \<le> u" "u \<le> 1" and D: "0 \<le> D" "binary64 D = D" "binary64 (2 * D) = 2 * D"
  shows "- D \<le> uniform ieee (- D) D u" and "uniform ieee (- D) D u \<le> D"
proof -
  define t where "t = binary64 (2 * D * u)"
  have un: "uniform ieee (- D) D u = binary64 (- D + t)"
    by (simp add: uniform_def ieee_def t_def D(3))
  from u D(1) have "0 \<le> 2 * D * u"
    by simp
  then have t0: "0 \<le> t"
    unfolding t_def by (rule binary64_nonneg)
  from u D(1) have "2 * D * u \<le> 2 * D * 1"
    by (intro mult_left_mono) simp_all
  then have "binary64 (2 * D * u) \<le> binary64 (2 * D)"
    by (intro binary64_mono) simp
  then have t1: "t \<le> 2 * D"
    by (simp add: t_def D(3))
  from t0 have "binary64 (- D) \<le> binary64 (- D + t)"
    by (intro binary64_mono) simp
  then show "- D \<le> uniform ieee (- D) D u"
    by (simp add: un binary64_minus D(2))
  from t1 have "binary64 (- D + t) \<le> binary64 D"
    by (intro binary64_mono) simp
  then show "uniform ieee (- D) D u \<le> D"
    by (simp add: un D(2))
qed

lemma delta0_float:
  "0 \<le> binary64 (5 / 1000)" "binary64 (binary64 (5 / 1000)) = binary64 (5 / 1000)"
  "binary64 (2 * binary64 (5 / 1000)) = 2 * binary64 (5 / 1000)"
  by (simp_all add: float_defs)

lemma delta1_float:
  "0 \<le> binary64 (8 / 10000)" "binary64 (binary64 (8 / 10000)) = binary64 (8 / 10000)"
  "binary64 (2 * binary64 (8 / 10000)) = 2 * binary64 (8 / 10000)"
  by (simp_all add: float_defs)

lemma generate_empty_range:
  assumes u: "0 \<le> u" "u \<le> 1"
  shows "binary64 (1095 / 1000) \<le> generate_next_price ieee [] u"
    and "generate_next_price ieee [] u \<le> binary64 (1105 / 1000)"
proof -
  let ?D = "binary64 (5 / 1000)"
  let ?B = "binary64 (11 / 10)"
  let ?un = "uniform ieee (- ?D) ?D u"
  have g: "generate_next_price ieee [] u = py_round (binary64 (?B + ?un)) 5"
    by (simp add: generate_next_price_def Let_def ieee_def)
  note r = uniform_ieee_range [OF u delta0_float]
  from r(1) have "binary64 (?B + - ?D) \<le> binary64 (?B + ?un)"
    by (intro binary64_mono) simp
  then have "py_round (binary64 (?B + - ?D)) 5 \<le> py_round (binary64 (?B + ?un)) 5"
    by (rule py_round_mono)
  moreover have "py_round (binary64 (?B + - ?D)) 5 = binary64 (1095 / 1000)"
    by (simp add: float_defs)
  ultimately show "binary64 (1095 / 1000) \<le> generate_next_price ieee [] u"
    by (simp add: g)
  from r(2) have "binary64 (?B + ?un) \<le> binary64 (?B + ?D)"
    by (intro binary64_mono) simp
  then have "py_round (binary64 (?B + ?un)) 5 \<le> py_round (binary64 (?B + ?D)) 5"
    by (rule py_round_mono)
  moreover have "py_round (binary64 (?B + ?D)) 5 = binary64 (1105 / 1000)"
    by (simp add: float_defs)
  ultimately show "generate_next_price ieee [] u \<le> binary64 (1105 / 1000)"
    by (simp add: g)
qed

lemma generate_step_range:
  assumes u: "0 \<le> u" "u \<le> 1" and ps: "ps \<noteq> []" "0 \<le> last ps"
  shows "fround ieee (fmul ieee (last ps) (fadd ieee 1 (- flit ieee (8 / 10000)))) 5
           \<le> generate_next_price ieee ps u"
    and "generate_next_price ieee ps u
           \<le> fround ieee (fmul ieee (last ps) (fadd ieee 1 (flit ieee (8 / 10000)))) 5"
proof -
  let ?E = "binary64 (8 / 10000)"
  let ?un = "uniform ieee (- ?E) ?E u"
  have g: "generate_next_price ieee ps u = py_round (binary64 (last ps * binary64 (1 + ?un))) 5"
    using ps(1) by (simp add: generate_next_price_def Let_def ieee_def)
  note r = uniform_ieee_range [OF u delta1_float]
  from r(1) have "binary64 (1 + - ?E) \<le> binary64 (1 + ?un)"
    by (intro binary64_mono) simp
  with ps(2) have "last ps * binary64 (1 + - ?E) \<le> last ps * binary64 (1 + ?un)"
    by (rule mult_left_mono [rotated])
  then have "binary64 (last ps * binary64 (1 + - ?E)) \<le> binary64 (last ps * binary64 (1 + ?un))"
    by (rule binary64_mono)
  then have "py_round (binary64 (last ps * binary64 (1 + - ?E))) 5
               \<le> py_round (binary64 (last ps * binary64 (1 + ?un))) 5"
    by (rule py_round_mono)
  moreover have "fround ieee (fmul ieee (last ps) (fadd ieee 1 (- flit ieee (8 / 10000)))) 5
                   = py_round (binary64 (last ps * binary64 (1 + - ?E))) 5"
    by (simp add: ieee_def)
  ultimately show "fround ieee (fmul ieee (last ps) (fadd ieee 1 (- flit ieee (8 / 10000)))) 5
           \<le> generate_next_price ieee ps u"
    by (simp only: g)
  from r(2) have "binary64 (1 + ?un) \<le> binary64 (1 + ?E)"
    by (intro binary64_mono) simp
  with ps(2) have "last ps * binary64 (1 + ?un) \<le> last ps * binary64 (1 + ?E)"
    by (rule mult_left_mono [rotated])
  then have "binary64 (last ps * binary64 (1 + ?un)) \<le> binary64 (last ps * binary64 (1 + ?E))"
    by (rule binary64_mono)
  then have "py_round (binary64 (last ps * binary64 (1 + ?un))) 5
               \<le> py_round (binary64 (last ps * binary64 (1 + ?E))) 5"
    by (rule py_round_mono)
  moreover have "fround ieee (fmul ieee (last ps) (fadd ieee 1 (flit ieee (8 / 10000)))) 5
                   = py_round (binary64 (last ps * binary64 (1 + ?E))) 5"
    by (simp add: ieee_def)
  ultimately show "generate_next_price ieee ps u
           \<le> fround ieee (fmul ieee (last ps) (fadd ieee 1 (flit ieee (8 / 10000)))) 5"
    by (simp only: g)
qed

subsection \<open>Frames, ticks and runs\<close>

lemma signals_exclusive: "\<not> (buy_signal r prev \<and> sell_signal r prev)"
  by (auto simp: buy_signal_def sell_signal_def nan_lt_def nan_gt_def split: option.splits)

lemma last_map_upt: "0 < n \<Longrightarrow> last (map f [0..<n]) = f (n - 1)"
  by (cases n) auto

lemma compute_indicators_last:
  assumes "compute_indicators cfg rsi_of prices = Some df"
  shows "length df = length prices" and "df \<noteq> []" and "prices \<noteq> []"
    and "last df = \<lparr>close = last prices,
                    rsi = rsi_of (RSI_WINDOW cfg) prices (length prices - 1),
                    ma_short = rolling_mean (MA_SHORT cfg) prices (length prices - 1),
                    ma_long = rolling_mean (MA_LONG cfg) prices (length prices - 1)\<rparr>"
proof -
  from assms have n: "0 < length prices"
    by (auto simp: compute_indicators_def split: if_splits)
  from assms have df: "df = map (\<lambda>i. \<lparr>close = prices ! i,
                            rsi = rsi_of (RSI_WINDOW cfg) prices i,
                            ma_short = rolling_mean (MA_SHORT cfg) prices i,
                            ma_long = rolling_mean (MA_LONG cfg) prices i\<rparr>)
                     [0 ..< length prices]"
    by (auto simp: compute_indicators_def split: if_splits)
  show "length df = length prices" by (simp add: df)
  show "prices \<noteq> []" using n by auto
  then have l: "prices ! (length prices - 1) = last prices"
    by (simp add: last_conv_nth)
  show "df \<noteq> []" using n by (simp add: df)
  show "last df = \<lparr>close = last prices,
                    rsi = rsi_of (RSI_WINDOW cfg) prices (length prices - 1),
                    ma_short = rolling_mean (MA_SHORT cfg) prices (length prices - 1),
                    ma_long = rolling_mean (MA_LONG cfg) prices (length prices - 1)\<rparr>"
    unfolding df using n l by (simp add: last_map_upt)
qed

lemma try_take_signal_total:
  "df \<noteq> [] \<Longrightarrow> \<exists>s'. try_take_signal cfg fp now df s = Inr s'"
  by (simp add: try_take_signal_def Let_def split: option.splits)

lemma try_take_signal_frame:
  "try_take_signal cfg fp now df s = Inr s' \<Longrightarrow> price_series s' = price_series s \<and> tick s' = tick s"
  by (auto simp: try_take_signal_def Let_def split: option.splits if_splits)

lemma simulation_tick_total:
  "\<exists>s'. simulation_tick cfg fp rsi_of inp s = Inr s'"
proof (cases "compute_indicators cfg rsi_of
          (append_bounded (price_series s) (generate_next_price fp (price_series s) (fst inp)))")
  case None
  then show ?thesis by (simp add: simulation_tick_def Let_def)
next
  case (Some df)
  from compute_indicators_last(2) [OF Some] have "df \<noteq> []" .
  from try_take_signal_total [OF this] Some show ?thesis
    by (simp add: simulation_tick_def Let_def)
qed

lemma simulation_tick_series:
  assumes "simulation_tick cfg fp rsi_of inp s = Inr s'"
  shows "price_series s' =
           append_bounded (price_series s) (generate_next_price fp (price_series s) (fst inp))"
    and "tick s' = tick s + 1"
  using assms
  by (auto simp: simulation_tick_def Let_def split: option.splits dest!: try_take_signal_frame)

lemma append_bounded_length: "length ps \<le> 500 \<Longrightarrow> length (append_bounded ps p) \<le> 500"
  by (simp add: append_bounded_def Let_def)

lemma append_bounded_eq:
  "length ps \<le> 500 \<Longrightarrow>
     append_bounded ps p = (if length ps < 500 then ps @ [p] else tl ps @ [p])"
  by (cases ps) (auto simp: append_bounded_def Let_def)

lemma append_bounded_last: "length ps \<le> 500 \<Longrightarrow> last (append_bounded ps p) = p"
  by (simp add: append_bounded_eq)

lemma run_ticks_total: "\<exists>s'. run_ticks cfg fp rsi_of inps s = Inr s'"
proof (induction inps arbitrary: s)
  case Nil
  show ?case by simp
next
  case (Cons inp inps)
  obtain s1 where "simulation_tick cfg fp rsi_of inp s = Inr s1"
    using simulation_tick_total by blast
  with Cons show ?case by simp
qed

lemma run_ticks_length:
  "run_ticks cfg fp rsi_of inps s = Inr s' \<Longrightarrow> length (price_series s) \<le> 500
     \<Longrightarrow> length (price_series s') \<le> 500"
proof (induction inps arbitrary: s)
  case Nil
  then show ?case by simp
next
  case (Cons inp inps)
  obtain s1 where s1: "simulation_tick cfg fp rsi_of inp s = Inr s1"
    using simulation_tick_total by blast
  with Cons.prems have "length (price_series s1) \<le> 500"
    by (simp add: simulation_tick_series(1) append_bounded_length)
  moreover from Cons.prems s1 have "run_ticks cfg fp rsi_of inps s1 = Inr s'" by simp
  ultimately show ?case using Cons.IH by blast
qed

lemma short_run2:
  "run_ticks short_config ieee rsi_wilder (take 2 short_inputs) (initial short_config) = Inr short_bot2"
  by (simp add: eval_defs short_bot2_def)

lemma short_tick3:
  "simulation_tick short_config ieee rsi_wilder (9 / 16, ''t3'') short_bot2 = Inr short_bot3"
  by (simp add: eval_defs short_bot2_def short_bot3_def)

lemma short_run3:
  "run_ticks short_config ieee rsi_wilder short_inputs (initial short_config) = Inr short_bot3"
  by (simp add: eval_defs short_bot3_def)

lemma try_take_signal_cases:
  assumes "try_take_signal cfg fp now df s = Inr s'"
  shows "s' = s
     \<or> (open_position s = None
        \<and> (\<exists>d. open_position s' =
                  Some \<lparr>entry_time = now, entry_price = close (last df),
                        direction = d, amount = TRADE_AMOUNT cfg\<rparr>)
        \<and> balance s' = balance s - TRADE_AMOUNT cfg
        \<and> trade_history s' = trade_history s)
     \<or> (\<exists>p. open_position s = Some p \<and> open_position s' = None
        \<and> balance s' = balance s + (amount p + profit_amount_of fp p (close (last df)))
        \<and> trade_history s' = trade_history s @ [closed_record fp p now (close (last df))])"
  using assms
  by (auto simp: try_take_signal_def Let_def split: option.splits if_splits)

lemma simulation_tick_cases:
  assumes "simulation_tick cfg fp rsi_of inp s = Inr s'"
  shows "(open_position s' = open_position s \<and> balance s' = balance s
          \<and> trade_history s' = trade_history s)
     \<or> (open_position s = None
        \<and> (\<exists>d. open_position s' =
                  Some \<lparr>entry_time = snd inp, entry_price = last (price_series s'),
                        direction = d, amount = TRADE_AMOUNT cfg\<rparr>)
        \<and> balance s' = balance s - TRADE_AMOUNT cfg
        \<and> trade_history s' = trade_history s)
     \<or> (\<exists>p. open_position s = Some p \<and> open_position s' = None
        \<and> balance s' = balance s + (amount p + profit_amount_of fp p (last (price_series s')))
        \<and> trade_history s' =
            trade_history s @ [closed_record fp p (snd inp) (last (price_series s'))])"
proof -
  define s2 where "s2 = s\<lparr>tick := tick s + 1,
     price_series := append_bounded (price_series s) (generate_next_price fp (price_series s) (fst inp))\<rparr>"
  have ps: "price_series s2 = price_series s'"
    using simulation_tick_series(1) [OF assms] by (simp add: s2_def)
  have keep: "open_position s2 = open_position s" "balance s2 = balance s"
    "trade_history s2 = trade_history s"
    by (simp_all add: s2_def)
  show ?thesis
  proof (cases "compute_indicators cfg rsi_of (price_series s2)")
    case None
    with assms have "s' = s2"
      by (simp add: simulation_tick_def Let_def s2_def)
    with keep show ?thesis by simp
  next
    case (Some df)
    with assms have t: "try_take_signal cfg fp (snd inp) df s2 = Inr s'"
      by (simp add: simulation_tick_def Let_def s2_def)
    from compute_indicators_last(4) [OF Some] ps
    have c: "close (last df) = last (price_series s')" by simp
    from try_take_signal_cases [OF t] show ?thesis
      unfolding c using keep by auto
  qed
qed

lemma tick_balance:
  assumes "simulation_tick cfg fp rsi_of inp s = Inr s'"
  shows "balance s' = balance s - open_stake (ledger_action fp s s') + close_credit (ledger_action fp s s')"
    and "ledger_action fp s s' = Hold \<or> ledger_action fp s s' = Opened (TRADE_AMOUNT cfg)
         \<or> (\<exists>p. open_position s = Some p \<and> ledger_action fp s s' =
                Closed (amount p) ((pnl fp p (last (price_series s')) / 10) * (amount p / 100)))"
  using simulation_tick_cases [OF assms]
  by (auto simp: ledger_action_def profit_amount_of_def split: option.splits)

lemma run_balance:
  "run_ticks cfg fp rsi_of inps s = Inr s' \<Longrightarrow>
     balance s' = balance s - sum_list (map open_stake (run_actions cfg fp rsi_of inps s))
                  + sum_list (map close_credit (run_actions cfg fp rsi_of inps s))"
proof (induction inps arbitrary: s)
  case Nil
  then show ?case by simp
next
  case (Cons inp inps)
  obtain s1 where s1: "simulation_tick cfg fp rsi_of inp s = Inr s1"
    using simulation_tick_total by blast
  with Cons.prems have r: "run_ticks cfg fp rsi_of inps s1 = Inr s'" by simp
  from Cons.IH [OF r] tick_balance(1) [OF s1] s1 show ?case
    by simp
qed

lemma ewm_from_nonneg:
  "0 \<le> a \<Longrightarrow> a \<le> 1 \<Longrightarrow> 0 \<le> y \<Longrightarrow> \<forall>x \<in> set xs. 0 \<le> x
     \<Longrightarrow> \<forall>z \<in> set (ewm_from a y xs). 0 \<le> z"
proof (induction xs arbitrary: y)
  case Nil
  show ?case by simp
next
  case (Cons x xs)
  from Cons.prems have y': "0 \<le> (1 - a) * y + a * x"
    by simp
  from Cons.prems have "\<forall>x \<in> set xs. 0 \<le> x"
    by simp
  from Cons.IH [OF Cons.prems(1,2) y' this] y' show ?case
    by simp
qed

lemma ewm_nonneg:
  "0 \<le> a \<Longrightarrow> a \<le> 1 \<Longrightarrow> \<forall>x \<in> set xs. 0 \<le> x \<Longrightarrow> \<forall>z \<in> set (ewm a xs). 0 \<le> z"
proof (cases xs)
  case Nil
  then show ?thesis by (simp add: ewm_def)
next
  case (Cons x xs')
  assume a: "0 \<le> a" "a \<le> 1" and nn: "\<forall>x \<in> set xs. 0 \<le> x"
  from nn Cons have x: "0 \<le> x" and r: "\<forall>x \<in> set xs'. 0 \<le> x"
    by simp_all
  from ewm_from_nonneg [OF a x r] x Cons show ?thesis
    by (simp add: ewm_def)
qed

lemma length_ewm_from: "length (ewm_from a y xs) = length xs"
  by (induction xs arbitrary: y) simp_all

lemma length_ewm: "length (ewm a xs) = length xs"
  by (cases xs) (simp_all add: ewm_def length_ewm_from)

lemma gains_nonneg: "\<forall>x \<in> set (gains prices). 0 \<le> x"
  by (cases prices) (auto simp: gains_def)

lemma losses_nonneg: "\<forall>x \<in> set (losses prices). 0 \<le> x"
  by (cases prices) (auto simp: losses_def)

lemma length_gains: "length (gains prices) = length prices"
  by (cases prices) (simp_all add: gains_def)

lemma length_losses: "length (losses prices) = length prices"
  by (cases prices) (simp_all add: losses_def)

lemma avg_gain_nonneg:
  assumes "0 < w" and "i < length prices"
  shows "0 \<le> avg_gain w prices i"
proof -
  have a: "0 \<le> 1 / real w" "1 / real w \<le> 1"
    using assms(1) by simp_all
  have "ewm (1 / real w) (gains prices) ! i \<in> set (ewm (1 / real w) (gains prices))"
    using assms(2) by (simp add: length_ewm length_gains)
  with ewm_nonneg [OF a gains_nonneg] show ?thesis
    by (simp add: avg_gain_def)
qed

lemma avg_loss_nonneg:
  assumes "0 < w" and "i < length prices"
  shows "0 \<le> avg_loss w prices i"
proof -
  have a: "0 \<le> 1 / real w" "1 / real w \<le> 1"
    using assms(1) by simp_all
  have "ewm (1 / real w) (losses prices) ! i \<in> set (ewm (1 / real w) (losses prices))"
    using assms(2) by (simp add: length_ewm length_losses)
  with ewm_nonneg [OF a losses_nonneg] show ?thesis
    by (simp add: avg_loss_def)
qed

lemma rs_scale: 
  assumes "0 \<le> g" and "0 < (l :: real)"
  shows "0 \<le> 100 - 100 / (1 + g / l)" and "100 - 100 / (1 + g / l) \<le> 100"
proof -
  have "1 \<le> 1 + g / l"
    using assms by simp
  then have "100 / (1 + g / l) \<le> 100 / 1"
    by (intro divide_left_mono) simp_all
  then show "0 \<le> 100 - 100 / (1 + g / l)"
    by simp
  have "0 \<le> 100 / (1 + g / l)"
    using assms by simp
  then show "100 - 100 / (1 + g / l) \<le> 100"
    by simp
qed

lemma rolling_mean_append:
  "i < length xs \<Longrightarrow> rolling_mean w (xs @ [x]) i = rolling_mean w xs i"
  by (simp add: rolling_mean_def)

lemma append_bounded_mono: "length ps \<le> 500 \<Longrightarrow> length ps \<le> length (append_bounded ps p)"
  by (simp add: append_bounded_def Let_def)

lemma try_take_signal_opens_rows:
  "try_take_signal cfg fp now df s = Inr s' \<Longrightarrow> open_position s = None
     \<Longrightarrow> open_position s' \<noteq> None \<Longrightarrow> actionable (last df) \<and> \<not> prev_unavailable df"
  by (auto simp: try_take_signal_def Let_def actionable_def prev_unavailable_def
      buy_signal_def sell_signal_def isna_def nan_le_def nan_ge_def
      split: if_splits option.splits)

lemma compute_indicators_prev:
  assumes "compute_indicators cfg rsi_of prices = Some df" and "2 \<le> length prices"
  shows "prev_row df =
           Some \<lparr>close = prices ! (length prices - 2),
                 rsi = rsi_of (RSI_WINDOW cfg) prices (length prices - 2),
                 ma_short = rolling_mean (MA_SHORT cfg) prices (length prices - 2),
                 ma_long = rolling_mean (MA_LONG cfg) prices (length prices - 2)\<rparr>"
proof -
  from assms(1) have df: "df = map (\<lambda>i. \<lparr>close = prices ! i,
                            rsi = rsi_of (RSI_WINDOW cfg) prices i,
                            ma_short = rolling_mean (MA_SHORT cfg) prices i,
                            ma_long = rolling_mean (MA_LONG cfg) prices i\<rparr>)
                     [0 ..< length prices]"
    by (auto simp: compute_indicators_def split: if_splits)
  from assms(2) have "length prices - 2 < length prices"
    by simp
  then show ?thesis
    using assms(2) by (simp add: prev_row_def df)
qed

lemma compute_indicators_short:
  assumes "compute_indicators cfg rsi_of prices = Some df" and "length prices < 2"
  shows "prev_row df = None"
  using assms compute_indicators_last(1) [OF assms(1)] by (simp add: prev_row_def)

lemma rolling_mean_Some:
  "rolling_mean w xs i \<noteq> None \<longleftrightarrow> 0 < w \<and> w \<le> i + 1 \<and> i < length xs"
  by (auto simp: rolling_mean_def)

lemma ledger_inv_step:
  assumes i: "ledger_inv cfg s" and t: "simulation_tick cfg fp rsi_of inp s = Inr s'"
  shows "ledger_inv cfg s'"
proof -
  let ?ps = "append_bounded (price_series s) (generate_next_price fp (price_series s) (fst inp))"
  have ps: "price_series s' = ?ps"
    by (rule simulation_tick_series(1) [OF t])
  from i have len: "length (price_series s) \<le> 500"
    by (simp add: ledger_inv_def)
  then have l500: "length (price_series s') \<le> 500"
    and mono: "length (price_series s) \<le> length (price_series s')"
    by (simp_all add: ps append_bounded_length append_bounded_mono)
  have "max (RSI_WINDOW cfg) (MA_LONG cfg) + 1 \<le> length (price_series s')
          \<and> 0 < MA_SHORT cfg \<and> MA_SHORT cfg + 1 \<le> length (price_series s')
          \<and> 0 < MA_LONG cfg"
    if o: "open_position s' \<noteq> None"
  proof (cases "open_position s = None")
    case False
    with i mono show ?thesis
      by (auto simp: ledger_inv_def)
  next
    case True
    let ?s2 = "s\<lparr>tick := tick s + 1, price_series := ?ps\<rparr>"
    from t True o obtain df where df: "compute_indicators cfg rsi_of ?ps = Some df"
      and tt: "try_take_signal cfg fp (snd inp) df ?s2 = Inr s'"
      by (auto simp: simulation_tick_def Let_def split: option.splits)
    from try_take_signal_opens_rows [OF tt _ o] True
    have a: "actionable (last df)" and p: "\<not> prev_unavailable df"
      by simp_all
    from df have th: "max (RSI_WINDOW cfg) (MA_LONG cfg) + 1 \<le> length ?ps"
      by (auto simp: compute_indicators_def split: if_splits)
    have two: "2 \<le> length ?ps"
    proof (rule ccontr)
      assume "\<not> 2 \<le> length ?ps"
      then have "prev_row df = None"
        using compute_indicators_short [OF df] by simp
      with p show False
        by (simp add: prev_unavailable_def)
    qed
    from p compute_indicators_prev [OF df two]
    have "rolling_mean (MA_SHORT cfg) ?ps (length ?ps - 2) \<noteq> None"
      and "rolling_mean (MA_LONG cfg) ?ps (length ?ps - 2) \<noteq> None"
      by (simp_all add: prev_unavailable_def isna_def)
    then have "0 < MA_SHORT cfg \<and> MA_SHORT cfg + 1 \<le> length ?ps \<and> 0 < MA_LONG cfg"
      using two unfolding rolling_mean_Some by linarith
    with th ps show ?thesis
      by simp
  qed
  with l500 show ?thesis
    by (simp add: ledger_inv_def)
qed

lemma ledger_inv_run:
  "ledger_inv cfg s \<Longrightarrow> run_ticks cfg fp rsi_of inps s = Inr s' \<Longrightarrow> ledger_inv cfg s'"
proof (induction inps arbitrary: s)
  case Nil
  then show ?case by simp
next
  case (Cons inp inps)
  obtain s1 where s1: "simulation_tick cfg fp rsi_of inp s = Inr s1"
    using simulation_tick_total by blast
  from ledger_inv_step [OF Cons.prems(1) s1] Cons.prems(2) s1 Cons.IH show ?case
    by simp
qed

lemma ledger_inv_reachable:
  assumes "run_ticks cfg fp rsi_of inps (initial cfg) = Inr s"
  shows "ledger_inv cfg s"
proof -
  have "ledger_inv cfg (initial cfg)"
    by (simp add: ledger_inv_def initial_def)
  from ledger_inv_run [OF this assms] show ?thesis .
qed

lemma open_tick_rows:
  assumes run: "run_ticks cfg fp rsi_of inps (initial cfg) = Inr s"
    and o: "open_position s \<noteq> None"
  shows "\<exists>df. tick_frame cfg fp rsi_of inp s = Some df
            \<and> \<not> isna (ma_short (last df)) \<and> \<not> isna (ma_long (last df))
            \<and> \<not> prev_unavailable df"
proof -
  let ?ps = "append_bounded (price_series s) (generate_next_price fp (price_series s) (fst inp))"
  from ledger_inv_reachable [OF run] o
  have len: "length (price_series s) \<le> 500"
    and th: "max (RSI_WINDOW cfg) (MA_LONG cfg) + 1 \<le> length (price_series s)"
    and w: "0 < MA_SHORT cfg" "MA_SHORT cfg + 1 \<le> length (price_series s)" "0 < MA_LONG cfg"
    by (simp_all add: ledger_inv_def)
  from append_bounded_mono [OF len] th w
  have th': "max (RSI_WINDOW cfg) (MA_LONG cfg) + 1 \<le> length ?ps"
    and w': "MA_SHORT cfg + 1 \<le> length ?ps" "MA_LONG cfg + 1 \<le> length ?ps"
    by (meson le_trans max.cobounded2 add_le_mono1)+
  from th' obtain df where df: "compute_indicators cfg rsi_of ?ps = Some df"
    by (simp add: compute_indicators_def)
  from w' w have two: "2 \<le> length ?ps"
    by linarith
  from w w' two have "rolling_mean (MA_SHORT cfg) ?ps (length ?ps - 1) \<noteq> None"
    and "rolling_mean (MA_LONG cfg) ?ps (length ?ps - 1) \<noteq> None"
    and "rolling_mean (MA_SHORT cfg) ?ps (length ?ps - 2) \<noteq> None"
    and "rolling_mean (MA_LONG cfg) ?ps (length ?ps - 2) \<noteq> None"
    unfolding rolling_mean_Some by linarith+
  with compute_indicators_last(4) [OF df] compute_indicators_prev [OF df two]
  have "\<not> isna (ma_short (last df)) \<and> \<not> isna (ma_long (last df)) \<and> \<not> prev_unavailable df"
    by (simp add: isna_def prev_unavailable_def)
  with df show ?thesis
    by (simp add: tick_frame_def)
qed

lemma open_tick_actionable:
  assumes run: "run_ticks cfg fp rsi_of inps (initial cfg) = Inr s"
    and o: "open_position s \<noteq> None"
    and lib: "\<And>prices. RSI_WINDOW cfg + 1 \<le> length prices
                \<Longrightarrow> rsi_of (RSI_WINDOW cfg) prices (length prices - 1) \<noteq> None"
  shows "\<exists>df. tick_frame cfg fp rsi_of inp s = Some df \<and> actionable (last df)"
proof -
  from open_tick_rows [OF run o, of inp]
  obtain df where df: "tick_frame cfg fp rsi_of inp s = Some df"
    and m: "\<not> isna (ma_short (last df))" "\<not> isna (ma_long (last df))"
    by blast
  let ?ps = "append_bounded (price_series s) (generate_next_price fp (price_series s) (fst inp))"
  from df have c: "compute_indicators cfg rsi_of ?ps = Some df"
    by (simp add: tick_frame_def)
  then have "RSI_WINDOW cfg + 1 \<le> length ?ps"
    by (auto simp: compute_indicators_def split: if_splits)
  from lib [OF this] compute_indicators_last(4) [OF c] have "\<not> isna (rsi (last df))"
    by (simp add: isna_def)
  with m df show ?thesis
    by (auto simp: actionable_def)
qed

lemma short_actions:
  "run_actions short_config ieee rsi_wilder short_inputs (initial short_config)
     = [Hold, Hold, Opened 10]"
  by (simp add: eval_defs ledger_action_def)

lemma default_run20:
  "run_ticks default_config ieee rsi_wilder (take 20 default_inputs) (initial default_config)
     = Inr default_bot20"
  by (simp add: eval_defs default_inputs_def default_bot20_def)

lemma default_tick21:
  "simulation_tick default_config ieee rsi_wilder (17 / 32, ''t21'') default_bot20
     = Inr default_bot21"
  by (simp add: eval_defs default_bot20_def default_bot21_def)

text \<open>
  A rise of five pips leaves the position open: in binary64 the pip result of the move
  from 1.09917 to 1.09967 is below 5.
\<close>

lemma default_tick22:
  "simulation_tick default_config ieee rsi_wilder (201 / 256, ''t22'') default_bot21
     = Inr default_bot22"
  by (simp add: eval_defs default_bot21_def default_bot22_def take_profit_def stop_loss_def
      ma_reverse_def)

section \<open>Opening a position\<close>

text \<open>
  Claim C1. With no open position and a last row whose three indicator cells are
  available, \<open>try_take_signal\<close> returns normally, and the position it leaves is a long
  one exactly when the RSI is below 30, the second-to-last row exists with its short
  average less than or equal to its long average, and the short average of the last row
  is above the long one; it is a short one exactly when the RSI is above 70, the
  second-to-last row has its short average greater than or equal to its long average,
  and the short average of the last row is below the long one. The long rule is tested
  first, so it alone decides whether a long position opens. A position that was opened
  records the closing price of the last row as entry price and the configured trade
  amount as stake, and the balance is debited by that amount; otherwise nothing changes.
\<close>

theorem open_rule:
  assumes "df \<noteq> []" and "actionable (last df)" and "open_position s = None"
  shows "\<exists>s'. try_take_signal cfg fp now df s = Inr s'
     \<and> ((\<exists>p. open_position s' = Some p \<and> direction p = Call)
          \<longleftrightarrow> (nan_lt (rsi (last df)) (Some 30)
               \<and> (\<exists>pr. prev_row df = Some pr \<and> nan_le (ma_short pr) (ma_long pr))
               \<and> nan_gt (ma_short (last df)) (ma_long (last df))))
     \<and> ((\<exists>p. open_position s' = Some p \<and> direction p = Put)
          \<longleftrightarrow> (nan_gt (rsi (last df)) (Some 70)
               \<and> (\<exists>pr. prev_row df = Some pr \<and> nan_ge (ma_short pr) (ma_long pr))
               \<and> nan_lt (ma_short (last df)) (ma_long (last df))))
     \<and> (\<forall>p. open_position s' = Some p \<longrightarrow>
            entry_price p = close (last df) \<and> amount p = TRADE_AMOUNT cfg
            \<and> entry_time p = now \<and> balance s' = balance s - TRADE_AMOUNT cfg)
     \<and> (open_position s' = None \<longrightarrow> s' = s)"
  using assms
  by (auto simp: try_take_signal_def actionable_def Let_def buy_signal_def sell_signal_def
      nan_lt_def nan_gt_def nan_le_def nan_ge_def split: option.splits)

theorem open_rule_witness:
  "\<exists>s' p. try_take_signal short_config ieee ''t3'' short_frame (initial short_config) = Inr s'
     \<and> open_position s' = Some p \<and> direction p = Call
     \<and> entry_price p = 109923 / 100000 \<and> amount p = 10 \<and> balance s' = - 5"
proof -
  have h1: "short_frame \<noteq> []"
    by (simp add: short_frame_def)
  have h2: "actionable (last short_frame)"
    by (simp add: short_frame_def actionable_def isna_def)
  have h3: "open_position (initial short_config) = None"
    by (simp add: initial_def)
  from open_rule [OF h1 h2 h3, of short_config ieee "''t3''"]
  obtain s' where r: "try_take_signal short_config ieee ''t3'' short_frame (initial short_config) = Inr s'"
    and long: "(\<exists>p. open_position s' = Some p \<and> direction p = Call)
          \<longleftrightarrow> (nan_lt (rsi (last short_frame)) (Some 30)
               \<and> (\<exists>pr. prev_row short_frame = Some pr \<and> nan_le (ma_short pr) (ma_long pr))
               \<and> nan_gt (ma_short (last short_frame)) (ma_long (last short_frame)))"
    and rec: "\<forall>p. open_position s' = Some p \<longrightarrow>
            entry_price p = close (last short_frame) \<and> amount p = TRADE_AMOUNT short_config
            \<and> entry_time p = ''t3''
            \<and> balance s' = balance (initial short_config) - TRADE_AMOUNT short_config"
    by blast
  have "nan_lt (rsi (last short_frame)) (Some 30)
        \<and> (\<exists>pr. prev_row short_frame = Some pr \<and> nan_le (ma_short pr) (ma_long pr))
        \<and> nan_gt (ma_short (last short_frame)) (ma_long (last short_frame))"
    by (simp add: short_frame_def prev_row_def nan_lt_def nan_le_def nan_gt_def)
  with long obtain p where p: "open_position s' = Some p" "direction p = Call"
    by blast
  with rec have "entry_price p = close (last short_frame)"
    and "amount p = TRADE_AMOUNT short_config"
    and "balance s' = balance (initial short_config) - TRADE_AMOUNT short_config"
    by blast+
  then have "entry_price p = 109923 / 100000" and "amount p = 10" and "balance s' = - 5"
    by (simp_all add: short_frame_def short_config_def initial_def)
  with r p show ?thesis
    by blast
qed

section \<open>Closing a position\<close>

text \<open>
  Claim C2. With an open position and a last row whose three indicator cells are
  available, \<open>try_take_signal\<close> returns normally and the position is gone afterwards
  exactly when the pip result is at least 5, or at most -10, or the moving averages
  cross against the position: for a long one the second-to-last row has its short
  average greater than or equal to its long average and the last row has it below, and
  the other way round for a short one. The pip result is the float that the code
  computes: the price move in the direction of the position, a float subtraction, times
  10000, a float multiplication; this holds for every float arithmetic \<open>fp\<close>. On a
  close the balance is credited with the stake plus \<open>(pips / 10) * (stake / 100)\<close>,
  exactly one record is appended to the trade history, with the prices, the direction
  and the stake of the position, and the position is absent. If no close condition
  holds, nothing changes.
\<close>

theorem close_rule:
  assumes "df \<noteq> []" and "actionable (last df)" and "open_position s = Some p"
  shows "\<exists>s'. try_take_signal cfg fp now df s = Inr s'
     \<and> (open_position s' = None
          \<longleftrightarrow> (5 \<le> pnl fp p (close (last df)) \<or> pnl fp p (close (last df)) \<le> - 10
               \<or> (\<exists>pr. prev_row df = Some pr \<and>
                    (if direction p = Call
                     then nan_ge (ma_short pr) (ma_long pr)
                          \<and> nan_lt (ma_short (last df)) (ma_long (last df))
                     else nan_le (ma_short pr) (ma_long pr)
                          \<and> nan_gt (ma_short (last df)) (ma_long (last df))))))
     \<and> pnl fp p (close (last df)) =
           (if direction p = Call
            then fmul fp (fsub fp (close (last df)) (entry_price p)) 10000
            else fmul fp (fsub fp (entry_price p) (close (last df))) 10000)
     \<and> (open_position s' = None \<longrightarrow>
           balance s' = balance s + (amount p + (pnl fp p (close (last df)) / 10) * (amount p / 100))
           \<and> price_series s' = price_series s \<and> tick s' = tick s
           \<and> (\<exists>c. trade_history s' = trade_history s @ [c]
                 \<and> entry_price c = entry_price p \<and> close_price c = close (last df)
                 \<and> direction c = direction p \<and> amount c = amount p
                 \<and> entry_time c = entry_time p \<and> close_time c = now
                 \<and> profit_amount c =
                      fround fp ((pnl fp p (close (last df)) / 10) * (amount p / 100)) 6
                 \<and> pnl_pips c = fround fp (pnl fp p (close (last df))) 3))
     \<and> (open_position s' \<noteq> None \<longrightarrow> s' = s)"
proof -
  have d: "direction p = Put" if "direction p \<noteq> Call"
    using that by (cases "direction p") auto
  show ?thesis
    using assms d
    by (auto simp: try_take_signal_def actionable_def Let_def ma_reverse_def take_profit_def
        stop_loss_def profit_amount_of_def closed_record_def pnl_def split: option.splits)
qed

text \<open>
  In binary64 a long position entered at 1.10000 is closed at 1.10060, where the pip
  result is at least 5, and held at 1.10050, where the float subtraction and
  multiplication give a pip result just below 5.
\<close>

theorem close_rule_witness:
  "(\<exists>s' c. try_take_signal default_config ieee ''t1'' rise_frame long_bot = Inr s'
      \<and> open_position s' = None \<and> trade_history s' = [c]
      \<and> close_price c = close (last rise_frame))
   \<and> try_take_signal default_config ieee ''t1'' hold_frame long_bot = Inr long_bot
   \<and> pnl ieee \<lparr>entry_time = ''t0'', entry_price = binary64 (11 / 10), direction = Call,
                amount = 10\<rparr> (binary64 (11005 / 10000)) < 5"
proof -
  let ?p = "\<lparr>entry_time = ''t0'', entry_price = binary64 (11 / 10), direction = Call,
             amount = 10\<rparr>"
  have h1: "rise_frame \<noteq> []" and g1: "hold_frame \<noteq> []"
    by (simp_all add: rise_frame_def hold_frame_def)
  have h2: "actionable (last rise_frame)" and g2: "actionable (last hold_frame)"
    by (simp_all add: rise_frame_def hold_frame_def actionable_def isna_def)
  have h3: "open_position long_bot = Some ?p"
    by (simp add: long_bot_def)
  have t: "trade_history long_bot = []"
    by (simp add: long_bot_def)
  have up: "5 \<le> pnl ieee ?p (close (last rise_frame))"
    by (simp add: pnl_def rise_frame_def float_defs)
  have below: "pnl ieee ?p (binary64 (11005 / 10000)) < 5"
    and above: "- 10 < pnl ieee ?p (binary64 (11005 / 10000))"
    by (simp_all add: pnl_def float_defs)
  have c: "close (last hold_frame) = binary64 (11005 / 10000)"
    by (simp add: hold_frame_def)
  have nocross: "\<not> nan_lt (ma_short (last hold_frame)) (ma_long (last hold_frame))"
    by (simp add: hold_frame_def nan_lt_def float_defs)
  from close_rule [OF h1 h2 h3, of default_config ieee "''t1''"] up
  have first: "\<exists>s' c. try_take_signal default_config ieee ''t1'' rise_frame long_bot = Inr s'
      \<and> open_position s' = None \<and> trade_history s' = [c]
      \<and> close_price c = close (last rise_frame)"
    unfolding t by auto
  from close_rule [OF g1 g2 h3, of default_config ieee "''t1''"] below above nocross
  have second: "try_take_signal default_config ieee ''t1'' hold_frame long_bot = Inr long_bot"
    unfolding c by auto
  from first second below show ?thesis
    by blast
qed

section \<open>Rows that are not actionable\<close>

text \<open>
  Claim C6. When the RSI, the short average or the long average of the last row is
  unavailable, \<open>try_take_signal\<close> returns normally and the globals are unchanged:
  balance, open position and trade history are what they were.
\<close>

theorem nan_row_skipped:
  assumes "df \<noteq> []"
    and "isna (rsi (last df)) \<or> isna (ma_short (last df)) \<or> isna (ma_long (last df))"
  shows "try_take_signal cfg fp now df s = Inr s"
  using assms by (auto simp: try_take_signal_def Let_def)

theorem nan_row_skipped_witness:
  "try_take_signal default_config ieee ''t1'' gap_frame long_bot = Inr long_bot"
proof -
  have h1: "gap_frame \<noteq> []"
    by (simp add: gap_frame_def)
  have h2: "isna (rsi (last gap_frame)) \<or> isna (ma_short (last gap_frame))
            \<or> isna (ma_long (last gap_frame))"
    by (simp add: gap_frame_def isna_def)
  show ?thesis
    by (rule nan_row_skipped [OF h1 h2])
qed

section \<open>The history threshold of the indicator engine\<close>

text \<open>
  Claim C5. \<open>compute_indicators\<close> returns nothing exactly when the history has fewer
  than \<open>max(RSI_WINDOW, MA_LONG) + 1\<close> points. At or above that length it returns a
  frame with one row per price, whose last row holds the latest price and the RSI, the
  short average and the long average computed at the latest point.
\<close>

theorem indicators_threshold:
  "(compute_indicators cfg rsi_of prices = None
      \<longleftrightarrow> length prices < max (RSI_WINDOW cfg) (MA_LONG cfg) + 1)
   \<and> (max (RSI_WINDOW cfg) (MA_LONG cfg) + 1 \<le> length prices \<longrightarrow>
        (\<exists>df. compute_indicators cfg rsi_of prices = Some df
           \<and> length df = length prices \<and> df \<noteq> []
           \<and> close (last df) = last prices
           \<and> rsi (last df) = rsi_of (RSI_WINDOW cfg) prices (length prices - 1)
           \<and> ma_short (last df) = rolling_mean (MA_SHORT cfg) prices (length prices - 1)
           \<and> ma_long (last df) = rolling_mean (MA_LONG cfg) prices (length prices - 1)))"
proof (intro conjI impI)
  show "compute_indicators cfg rsi_of prices = None
      \<longleftrightarrow> length prices < max (RSI_WINDOW cfg) (MA_LONG cfg) + 1"
    by (simp add: compute_indicators_def)
next
  assume a: "max (RSI_WINDOW cfg) (MA_LONG cfg) + 1 \<le> length prices"
  then obtain df where df: "compute_indicators cfg rsi_of prices = Some df"
    by (simp add: compute_indicators_def)
  from compute_indicators_last [OF df] df
  show "\<exists>df. compute_indicators cfg rsi_of prices = Some df
           \<and> length df = length prices \<and> df \<noteq> []
           \<and> close (last df) = last prices
           \<and> rsi (last df) = rsi_of (RSI_WINDOW cfg) prices (length prices - 1)
           \<and> ma_short (last df) = rolling_mean (MA_SHORT cfg) prices (length prices - 1)
           \<and> ma_long (last df) = rolling_mean (MA_LONG cfg) prices (length prices - 1)"
    by simp
qed

theorem indicators_threshold_witness:
  "compute_indicators short_config rsi_wilder [11 / 10, 109912 / 100000] = None
   \<and> (\<exists>df. compute_indicators short_config rsi_wilder
              [11 / 10, 109912 / 100000, 109923 / 100000] = Some df
         \<and> length df = 3 \<and> close (last df) = 109923 / 100000
         \<and> rsi (last df) = Some 20)"
proof -
  have small: "length [11 / 10, 109912 / 100000 :: real]
                 < max (RSI_WINDOW short_config) (MA_LONG short_config) + 1"
    by (simp add: short_config_def)
  have large: "max (RSI_WINDOW short_config) (MA_LONG short_config) + 1
                 \<le> length [11 / 10, 109912 / 100000, 109923 / 100000 :: real]"
    by (simp add: short_config_def)
  have r: "rsi_wilder (RSI_WINDOW short_config) [11 / 10, 109912 / 100000, 109923 / 100000]
             (length [11 / 10, 109912 / 100000, 109923 / 100000 :: real] - 1) = Some 20"
    by (simp add: eval_defs)
  from indicators_threshold [of short_config rsi_wilder "[11 / 10, 109912 / 100000]"] small
  have "compute_indicators short_config rsi_wilder [11 / 10, 109912 / 100000] = None"
    by blast
  moreover
  from indicators_threshold [of short_config rsi_wilder
         "[11 / 10, 109912 / 100000, 109923 / 100000]"] large
  obtain df where "compute_indicators short_config rsi_wilder
              [11 / 10, 109912 / 100000, 109923 / 100000] = Some df"
    and "length df = length [11 / 10, 109912 / 100000, 109923 / 100000 :: real]"
    and "close (last df) = last [11 / 10, 109912 / 100000, 109923 / 100000]"
    and "rsi (last df) = rsi_wilder (RSI_WINDOW short_config)
           [11 / 10, 109912 / 100000, 109923 / 100000]
           (length [11 / 10, 109912 / 100000, 109923 / 100000 :: real] - 1)"
    by blast
  with r have "compute_indicators short_config rsi_wilder
              [11 / 10, 109912 / 100000, 109923 / 100000] = Some df
         \<and> length df = 3 \<and> close (last df) = 109923 / 100000 \<and> rsi (last df) = Some 20"
    by simp
  ultimately show ?thesis
    by blast
qed

section \<open>The bounded price history\<close>

text \<open>
  Claim C8. After any number of ticks from the initial globals, one more tick returns
  normally and leaves a price series of at most 500 points whose last element is the
  price generated on that tick; the series is the old one with the new price appended
  while fewer than 500 points were held, and otherwise the old one without its first
  element, in the same order, with the new price appended.
\<close>

theorem history_bounded:
  "\<exists>s s'. run_ticks cfg fp rsi_of inps (initial cfg) = Inr s
     \<and> simulation_tick cfg fp rsi_of inp s = Inr s'
     \<and> length (price_series s') \<le> 500
     \<and> last (price_series s') = generate_next_price fp (price_series s) (fst inp)
     \<and> price_series s' =
         (if length (price_series s) < 500
          then price_series s @ [generate_next_price fp (price_series s) (fst inp)]
          else tl (price_series s) @ [generate_next_price fp (price_series s) (fst inp)])"
proof -
  obtain s where s: "run_ticks cfg fp rsi_of inps (initial cfg) = Inr s"
    using run_ticks_total by blast
  obtain s' where s': "simulation_tick cfg fp rsi_of inp s = Inr s'"
    using simulation_tick_total by blast
  have "length (price_series (initial cfg)) \<le> 500"
    by (simp add: initial_def)
  with s have len: "length (price_series s) \<le> 500"
    by (rule run_ticks_length)
  note ser = simulation_tick_series(1) [OF s']
  from len have "length (price_series s') \<le> 500"
    by (simp add: ser append_bounded_length)
  moreover from len have "last (price_series s') = generate_next_price fp (price_series s) (fst inp)"
    by (simp only: ser append_bounded_last)
  moreover from len have "price_series s' =
         (if length (price_series s) < 500
          then price_series s @ [generate_next_price fp (price_series s) (fst inp)]
          else tl (price_series s) @ [generate_next_price fp (price_series s) (fst inp)])"
    by (simp only: ser append_bounded_eq)
  ultimately show ?thesis using s s' by blast
qed

theorem history_bounded_witness:
  "\<exists>s'. simulation_tick short_config ieee rsi_wilder (9 / 16, ''t3'') short_bot2 = Inr s'
     \<and> length (price_series s') \<le> 500
     \<and> price_series s' =
          [binary64 (11 / 10), binary64 (109912 / 100000), binary64 (109923 / 100000)]"
proof -
  from history_bounded [of short_config ieee rsi_wilder "take 2 short_inputs"
      "(9 / 16, ''t3'')"]
  obtain s s' where "run_ticks short_config ieee rsi_wilder (take 2 short_inputs)
                       (initial short_config) = Inr s"
    and t: "simulation_tick short_config ieee rsi_wilder (9 / 16, ''t3'') s = Inr s'"
    and l: "length (price_series s') \<le> 500"
    by blast
  with short_run2 have s: "s = short_bot2"
    by simp
  with t short_tick3 have "s' = short_bot3"
    by simp
  then have "price_series s' =
          [binary64 (11 / 10), binary64 (109912 / 100000), binary64 (109923 / 100000)]"
    by (simp add: short_bot3_def)
  with t l s show ?thesis
    by blast
qed

section \<open>The law of the price generator\<close>

text \<open>
  Claim C9. For every float arithmetic \<open>fp\<close>, \<open>generate_next_price\<close> returns, rounded
  to five decimals by \<open>round\<close>, the float sum of the base 1.1 and
  \<open>uniform(-0.005, 0.005)\<close> on an empty history, and otherwise the float product of the
  last price and \<open>1 + uniform(-0.0008, 0.0008)\<close>; of the history it reads the last
  element only, and of the random generator the one draw \<open>u\<close>, with
  \<open>uniform(a, b) = a + (b - a) * u\<close> in float arithmetic. The second bound is strictly
  smaller than the first, as decimals and as binary64 floats. In binary64 the result is
  the float nearest to a multiple of \<open>10^-5\<close>, and for a draw between 0 and 1 the
  perturbation lies within its bound: the first price lies between 1.09500 and 1.10500,
  and a later price between the rounded products of the last price with
  \<open>1 - 0.0008\<close> and with \<open>1 + 0.0008\<close>.
\<close>

theorem generate_next_price_law:
  "generate_next_price fp [] u =
     fround fp (fadd fp (flit fp (11 / 10))
                  (uniform fp (- flit fp (5 / 1000)) (flit fp (5 / 1000)) u)) 5
   \<and> (ps \<noteq> [] \<longrightarrow>
        generate_next_price fp ps u =
          fround fp (fmul fp (last ps)
                       (fadd fp 1 (uniform fp (- flit fp (8 / 10000)) (flit fp (8 / 10000)) u))) 5
        \<and> generate_next_price fp ps u = generate_next_price fp [last ps] u)
   \<and> uniform fp a b u = fadd fp a (fmul fp (fsub fp b a) u)
   \<and> (8 / 10000 :: real) < 5 / 1000
   \<and> flit ieee (8 / 10000) < flit ieee (5 / 1000)
   \<and> (\<exists>k :: int. generate_next_price ieee ps u = binary64 (of_int k / 10 ^ 5))
   \<and> (0 \<le> u \<and> u \<le> 1 \<longrightarrow>
        \<bar>uniform ieee (- flit ieee (5 / 1000)) (flit ieee (5 / 1000)) u\<bar> \<le> flit ieee (5 / 1000)
        \<and> \<bar>uniform ieee (- flit ieee (8 / 10000)) (flit ieee (8 / 10000)) u\<bar>
              \<le> flit ieee (8 / 10000)
        \<and> binary64 (1095 / 1000) \<le> generate_next_price ieee [] u
        \<and> generate_next_price ieee [] u \<le> binary64 (1105 / 1000)
        \<and> (ps \<noteq> [] \<and> 0 \<le> last ps \<longrightarrow>
              fround ieee (fmul ieee (last ps) (fadd ieee 1 (- flit ieee (8 / 10000)))) 5
                \<le> generate_next_price ieee ps u
              \<and> generate_next_price ieee ps u
                \<le> fround ieee (fmul ieee (last ps) (fadd ieee 1 (flit ieee (8 / 10000)))) 5))"
proof (intro conjI impI)
  show "generate_next_price fp [] u =
     fround fp (fadd fp (flit fp (11 / 10))
                  (uniform fp (- flit fp (5 / 1000)) (flit fp (5 / 1000)) u)) 5"
    by (simp add: generate_next_price_def Let_def)
  show "uniform fp a b u = fadd fp a (fmul fp (fsub fp b a) u)"
    by (simp add: uniform_def)
  show "(8 / 10000 :: real) < 5 / 1000"
    by simp
  show "flit ieee (8 / 10000) < flit ieee (5 / 1000)"
    by (simp add: float_defs)
  show "\<exists>k :: int. generate_next_price ieee ps u = binary64 (of_int k / 10 ^ 5)"
    unfolding generate_next_price_def Let_def ieee_def py_round_def by auto
next
  assume ps: "ps \<noteq> []"
  then show "generate_next_price fp ps u =
          fround fp (fmul fp (last ps)
                       (fadd fp 1 (uniform fp (- flit fp (8 / 10000)) (flit fp (8 / 10000)) u))) 5"
    by (simp add: generate_next_price_def Let_def)
  from ps show "generate_next_price fp ps u = generate_next_price fp [last ps] u"
    by (simp add: generate_next_price_def Let_def)
next
  assume u: "0 \<le> u \<and> u \<le> 1"
  then have u0: "0 \<le> u" and u1: "u \<le> 1"
    by simp_all
  have f: "flit ieee = binary64"
    by (simp add: ieee_def)
  from uniform_ieee_range [OF u0 u1 delta0_float]
  show "\<bar>uniform ieee (- flit ieee (5 / 1000)) (flit ieee (5 / 1000)) u\<bar> \<le> flit ieee (5 / 1000)"
    unfolding f by (simp add: abs_le_iff)
  from uniform_ieee_range [OF u0 u1 delta1_float]
  show "\<bar>uniform ieee (- flit ieee (8 / 10000)) (flit ieee (8 / 10000)) u\<bar>
          \<le> flit ieee (8 / 10000)"
    unfolding f by (simp add: abs_le_iff)
  show "binary64 (1095 / 1000) \<le> generate_next_price ieee [] u"
    by (rule generate_empty_range(1) [OF u0 u1])
  show "generate_next_price ieee [] u \<le> binary64 (1105 / 1000)"
    by (rule generate_empty_range(2) [OF u0 u1])
  assume ps: "ps \<noteq> [] \<and> 0 \<le> last ps"
  then have p1: "ps \<noteq> []" and p2: "0 \<le> last ps"
    by simp_all
  show "fround ieee (fmul ieee (last ps) (fadd ieee 1 (- flit ieee (8 / 10000)))) 5
          \<le> generate_next_price ieee ps u"
    by (rule generate_step_range(1) [OF u0 u1 p1 p2])
  show "generate_next_price ieee ps u
          \<le> fround ieee (fmul ieee (last ps) (fadd ieee 1 (flit ieee (8 / 10000)))) 5"
    by (rule generate_step_range(2) [OF u0 u1 p1 p2])
qed

text \<open>
  On the empty history the draw 1/16 gives 1.09563: the float sum lies above the tie
  1.095625. After 1.10000 and 1.09912 the draw 9/16 gives 1.09923.
\<close>

theorem generate_next_price_law_witness:
  "generate_next_price ieee [] (1 / 16) = binary64 (109563 / 100000)
   \<and> generate_next_price ieee [binary64 (11 / 10), binary64 (109912 / 100000)] (9 / 16)
       = binary64 (109923 / 100000)"
proof -
  note law = generate_next_price_law
    [where fp = ieee and ps = "[binary64 (11 / 10), binary64 (109912 / 100000)]"]
  from law [where u = "1 / 16"]
  have "generate_next_price ieee [] (1 / 16) =
     fround ieee (fadd ieee (flit ieee (11 / 10))
                  (uniform ieee (- flit ieee (5 / 1000)) (flit ieee (5 / 1000)) (1 / 16))) 5"
    by blast
  also have "\<dots> = binary64 (109563 / 100000)"
    by (simp add: uniform_def float_defs)
  finally have first: "generate_next_price ieee [] (1 / 16) = binary64 (109563 / 100000)" .
  have ne: "[binary64 (11 / 10), binary64 (109912 / 100000)] \<noteq> []"
    by simp
  from law [where u = "9 / 16"] ne
  have "generate_next_price ieee [binary64 (11 / 10), binary64 (109912 / 100000)] (9 / 16) =
          fround ieee (fmul ieee (last [binary64 (11 / 10), binary64 (109912 / 100000)])
             (fadd ieee 1 (uniform ieee (- flit ieee (8 / 10000)) (flit ieee (8 / 10000))
                (9 / 16)))) 5"
    by blast
  also have "\<dots> = binary64 (109923 / 100000)"
    by (simp add: uniform_def float_defs)
  finally show ?thesis
    using first by blast
qed

section \<open>One ledger action per tick\<close>

text \<open>
  Claim C10. Every tick returns normally and does at most one thing to the ledger: it
  never both opens a position and appends a closed trade. A tick that opens a position
  started without one and leaves the trade history as it was, so the new position is
  first examined for a close on a later tick; a tick that closes started with a position,
  ends without one and appends exactly one trade.
\<close>

theorem one_action_per_tick:
  "\<exists>s'. simulation_tick cfg fp rsi_of inp s = Inr s'
     \<and> \<not> (tick_opened s s' \<and> tick_closed s s')
     \<and> (tick_opened s s' \<longrightarrow> open_position s = None \<and> trade_history s' = trade_history s)
     \<and> (tick_closed s s' \<longrightarrow> open_position s \<noteq> None \<and> open_position s' = None
            \<and> (\<exists>c. trade_history s' = trade_history s @ [c]))"
proof -
  obtain s' where s': "simulation_tick cfg fp rsi_of inp s = Inr s'"
    using simulation_tick_total by blast
  from simulation_tick_cases [OF s']
  have "\<not> (tick_opened s s' \<and> tick_closed s s')
     \<and> (tick_opened s s' \<longrightarrow> open_position s = None \<and> trade_history s' = trade_history s)
     \<and> (tick_closed s s' \<longrightarrow> open_position s \<noteq> None \<and> open_position s' = None
            \<and> (\<exists>c. trade_history s' = trade_history s @ [c]))"
    by (auto simp: tick_opened_def tick_closed_def)
  with s' show ?thesis by blast
qed

theorem one_action_per_tick_witness:
  "\<exists>s'. simulation_tick short_config ieee rsi_wilder (9 / 16, ''t3'') short_bot2 = Inr s'
     \<and> tick_opened short_bot2 s' \<and> \<not> tick_closed short_bot2 s'"
proof -
  from one_action_per_tick [of short_config ieee rsi_wilder "(9 / 16, ''t3'')" short_bot2]
  obtain s' where t: "simulation_tick short_config ieee rsi_wilder (9 / 16, ''t3'') short_bot2 = Inr s'"
    and n: "\<not> (tick_opened short_bot2 s' \<and> tick_closed short_bot2 s')"
    by blast
  from t short_tick3 have "s' = short_bot3"
    by simp
  then have "tick_opened short_bot2 s'"
    by (simp add: tick_opened_def short_bot2_def short_bot3_def)
  with n t show ?thesis
    by blast
qed

section \<open>Balance accounting\<close>

text \<open>
  Claim C3. A run of any number of ticks from the initial globals returns normally, and
  its final balance is the start balance minus the stakes of the positions opened plus,
  for every close, the stake and the profit amount. On each single tick the balance is
  unchanged when the ledger holds, falls by exactly the stake on an open, which is the
  configured trade amount, and rises by exactly the stake plus
  \<open>(pips / 10) * (stake / 100)\<close> on a close. No test on the balance guards the debit:
  the short run opens a position with a balance of 5 and a stake of 10 and ends below
  zero.
\<close>

theorem balance_accounting:
  "(\<exists>s'. run_ticks cfg fp rsi_of inps (initial cfg) = Inr s'
      \<and> balance s' = START_BALANCE cfg
           - sum_list (map open_stake (run_actions cfg fp rsi_of inps (initial cfg)))
           + sum_list (map close_credit (run_actions cfg fp rsi_of inps (initial cfg))))
   \<and> (\<exists>s1. simulation_tick cfg fp rsi_of inp s = Inr s1
      \<and> balance s1 = (case ledger_action fp s s1 of
                         Hold \<Rightarrow> balance s
                       | Opened st \<Rightarrow> balance s - st
                       | Closed st pr \<Rightarrow> balance s + (st + pr))
      \<and> (ledger_action fp s s1 = Hold \<or> ledger_action fp s s1 = Opened (TRADE_AMOUNT cfg)
         \<or> (\<exists>p. open_position s = Some p \<and> ledger_action fp s s1 =
                Closed (amount p) ((pnl fp p (last (price_series s1)) / 10) * (amount p / 100)))))
   \<and> (\<exists>s3. run_ticks short_config ieee rsi_wilder short_inputs (initial short_config) = Inr s3
      \<and> balance s3 < 0)"
proof (intro conjI)
  obtain s' where s': "run_ticks cfg fp rsi_of inps (initial cfg) = Inr s'"
    using run_ticks_total by blast
  from run_balance [OF s'] s'
  show "\<exists>s'. run_ticks cfg fp rsi_of inps (initial cfg) = Inr s'
      \<and> balance s' = START_BALANCE cfg
           - sum_list (map open_stake (run_actions cfg fp rsi_of inps (initial cfg)))
           + sum_list (map close_credit (run_actions cfg fp rsi_of inps (initial cfg)))"
    by (simp add: initial_def)
next
  obtain s1 where s1: "simulation_tick cfg fp rsi_of inp s = Inr s1"
    using simulation_tick_total by blast
  from tick_balance [OF s1] s1
  show "\<exists>s1. simulation_tick cfg fp rsi_of inp s = Inr s1
      \<and> balance s1 = (case ledger_action fp s s1 of
                         Hold \<Rightarrow> balance s
                       | Opened st \<Rightarrow> balance s - st
                       | Closed st pr \<Rightarrow> balance s + (st + pr))
      \<and> (ledger_action fp s s1 = Hold \<or> ledger_action fp s s1 = Opened (TRADE_AMOUNT cfg)
         \<or> (\<exists>p. open_position s = Some p \<and> ledger_action fp s s1 =
                Closed (amount p) ((pnl fp p (last (price_series s1)) / 10) * (amount p / 100))))"
    by (cases "ledger_action fp s s1") auto
next
  show "\<exists>s3. run_ticks short_config ieee rsi_wilder short_inputs (initial short_config) = Inr s3
      \<and> balance s3 < 0"
    using short_run3 by (simp add: short_bot3_def)
qed

theorem balance_accounting_witness:
  "\<exists>s'. run_ticks short_config ieee rsi_wilder short_inputs (initial short_config) = Inr s'
     \<and> balance s' = 5 - 10 \<and> balance s' < 0"
proof -
  from balance_accounting [where cfg = short_config and fp = ieee and rsi_of = rsi_wilder
      and inps = short_inputs and inp = "(9 / 16, ''t3'')" and s = short_bot2]
  obtain s' where r: "run_ticks short_config ieee rsi_wilder short_inputs (initial short_config) = Inr s'"
    and b: "balance s' = START_BALANCE short_config
           - sum_list (map open_stake
               (run_actions short_config ieee rsi_wilder short_inputs (initial short_config)))
           + sum_list (map close_credit
               (run_actions short_config ieee rsi_wilder short_inputs (initial short_config)))"
    by blast
  from b have "balance s' = 5 - 10"
    unfolding short_actions by (simp add: short_config_def)
  with r show ?thesis
    by simp
qed

section \<open>Crossovers and the second-to-last row\<close>

text \<open>
  The two rows that \<open>try_take_signal\<close> compares are the last two rows of the frame
  computed on the current tick, and the history threshold of \<open>compute_indicators\<close>
  leaves room for both. So the first tick with a frame can open a position, against the
  last sentence of claim C4: with the default configuration and binary64 arithmetic no
  frame exists during the first twenty ticks; the twenty-first tick is the first one
  with a frame, and it opens a long position, the moving averages of row 19 being
  available in that frame.
\<close>

theorem first_frame_opens:
  "run_ticks default_config ieee rsi_wilder (take 20 default_inputs) (initial default_config)
     = Inr default_bot20
   \<and> open_position default_bot20 = None
   \<and> length (price_series default_bot20) = 20
   \<and> compute_indicators default_config rsi_wilder (price_series default_bot20) = None
   \<and> simulation_tick default_config ieee rsi_wilder (17 / 32, ''t21'') default_bot20
       = Inr default_bot21
   \<and> open_position default_bot21 =
       Some \<lparr>entry_time = ''t21'', entry_price = binary64 (109917 / 100000),
             direction = Call, amount = 10\<rparr>"
proof (intro conjI)
  show "run_ticks default_config ieee rsi_wilder (take 20 default_inputs) (initial default_config)
          = Inr default_bot20"
    by (rule default_run20)
  show "open_position default_bot20 = None"
    by (simp add: default_bot20_def)
  show "length (price_series default_bot20) = 20"
    by (simp add: default_bot20_def)
  then show "compute_indicators default_config rsi_wilder (price_series default_bot20) = None"
    by (simp add: compute_indicators_def default_config_def)
  show "simulation_tick default_config ieee rsi_wilder (17 / 32, ''t21'') default_bot20
          = Inr default_bot21"
    by (rule default_tick21)
  show "open_position default_bot21 =
       Some \<lparr>entry_time = ''t21'', entry_price = binary64 (109917 / 100000),
             direction = Call, amount = 10\<rparr>"
    by (simp add: default_bot21_def)
qed

text \<open>
  Claim C4, amended. In every state that the tick loop reaches from the initial globals,
  for every float arithmetic and every RSI library: when the frame of the next tick has
  no second-to-last row, or that row lacks its short or its long moving average, the
  tick returns normally and triggers neither an open nor a close; open position, balance
  and trade history are what they were.
\<close>

theorem no_action_without_prev_row:
  assumes "run_ticks cfg fp rsi_of inps (initial cfg) = Inr s"
    and "tick_frame cfg fp rsi_of inp s = Some df"
    and "prev_unavailable df"
  shows "\<exists>s'. simulation_tick cfg fp rsi_of inp s = Inr s'
     \<and> \<not> tick_opened s s' \<and> \<not> tick_closed s s'
     \<and> open_position s' = open_position s \<and> balance s' = balance s
     \<and> trade_history s' = trade_history s"
proof -
  let ?ps = "append_bounded (price_series s) (generate_next_price fp (price_series s) (fst inp))"
  let ?s2 = "s\<lparr>tick := tick s + 1, price_series := ?ps\<rparr>"
  from assms(2) have df: "compute_indicators cfg rsi_of ?ps = Some df"
    by (simp add: tick_frame_def)
  have flat: "open_position s = None"
  proof (rule ccontr)
    assume "open_position s \<noteq> None"
    from open_tick_rows [OF assms(1) this, of inp] assms(2,3) show False
      by simp
  qed
  have ne: "df \<noteq> []"
    by (rule compute_indicators_last(2) [OF df])
  from assms(3) have nb: "\<not> buy_signal (last df) (prev_row df)"
    and ns: "\<not> sell_signal (last df) (prev_row df)"
    by (auto simp: prev_unavailable_def buy_signal_def sell_signal_def isna_def
        nan_le_def nan_ge_def split: option.splits)
  from ne nb ns flat have "try_take_signal cfg fp (snd inp) df ?s2 = Inr ?s2"
    by (simp add: try_take_signal_def Let_def)
  with df have "simulation_tick cfg fp rsi_of inp s = Inr ?s2"
    by (simp add: simulation_tick_def Let_def)
  then show ?thesis
    by (simp add: tick_opened_def tick_closed_def)
qed

text \<open>
  With a short window of 3 and a long window of 2 the third tick of the short run has a
  frame whose last row is actionable, with an RSI below 30 and the short average above
  the long one, and whose second-to-last row has no short average: nothing is opened.
\<close>

theorem no_action_without_prev_row_witness:
  "\<exists>df s'. tick_frame wide_config ieee rsi_wilder (9 / 16, ''t3'') short_bot2 = Some df
     \<and> actionable (last df) \<and> prev_unavailable df
     \<and> nan_lt (rsi (last df)) (Some 30)
     \<and> nan_gt (ma_short (last df)) (ma_long (last df))
     \<and> simulation_tick wide_config ieee rsi_wilder (9 / 16, ''t3'') short_bot2 = Inr s'
     \<and> open_position s' = None \<and> balance s' = 5 \<and> trade_history s' = []"
proof -
  have run: "run_ticks wide_config ieee rsi_wilder (take 2 short_inputs) (initial wide_config)
               = Inr short_bot2"
    by (simp add: eval_defs wide_config_def short_bot2_def)
  let ?P = "[binary64 (11 / 10), binary64 (109912 / 100000), binary64 (109923 / 100000)]"
  have ps: "append_bounded (price_series short_bot2)
              (generate_next_price ieee (price_series short_bot2) (fst (9 / 16, ''t3''))) = ?P"
    by (simp add: eval_defs short_bot2_def)
  obtain df where df: "compute_indicators wide_config rsi_wilder ?P = Some df"
    by (simp add: compute_indicators_def wide_config_def)
  have f: "tick_frame wide_config ieee rsi_wilder (9 / 16, ''t3'') short_bot2 = Some df"
    unfolding tick_frame_def ps by (rule df)
  note l = compute_indicators_last(4) [OF df]
  have a: "actionable (last df)"
    and r: "nan_lt (rsi (last df)) (Some 30)"
    and m: "nan_gt (ma_short (last df)) (ma_long (last df))"
    unfolding l by (simp_all add: eval_defs wide_config_def)
  have "2 \<le> length ?P"
    by simp
  from compute_indicators_prev [OF df this] have p: "prev_unavailable df"
    by (simp add: prev_unavailable_def isna_def rolling_mean_def wide_config_def)
  from no_action_without_prev_row [OF run f p]
  obtain s' where "simulation_tick wide_config ieee rsi_wilder (9 / 16, ''t3'') short_bot2 = Inr s'"
    and "open_position s' = open_position short_bot2"
    and "balance s' = balance short_bot2"
    and "trade_history s' = trade_history short_bot2"
    by blast
  then have "simulation_tick wide_config ieee rsi_wilder (9 / 16, ''t3'') short_bot2 = Inr s'
     \<and> open_position s' = None \<and> balance s' = 5 \<and> trade_history s' = []"
    by (simp add: short_bot2_def)
  with f a p r m show ?thesis
    by blast
qed

section \<open>The range of the relative-strength index\<close>

text \<open>
  Claim C7. For a positive window and a row that has at least \<open>window\<close> rows up to and
  including itself, the relative-strength index is available and lies between 0 and
  100; where the average loss is zero it is 100.
\<close>

theorem rsi_range:
  assumes "0 < w" and "w \<le> i + 1" and "i < length prices"
  shows "\<exists>r. rsi_wilder w prices i = Some r \<and> 0 \<le> r \<and> r \<le> 100
           \<and> (avg_loss w prices i = 0 \<longrightarrow> r = 100)"
proof (cases "avg_loss w prices i = 0")
  case True
  with assms show ?thesis
    by (simp add: rsi_wilder_def)
next
  case False
  with avg_loss_nonneg [OF assms(1,3)] have l: "0 < avg_loss w prices i"
    by simp
  from rs_scale [OF avg_gain_nonneg [OF assms(1,3)] l] False assms show ?thesis
    by (simp add: rsi_wilder_def)
qed

theorem rsi_range_witness:
  "rsi_wilder 2 [1, 2, 3] 2 = Some 100 \<and> avg_loss 2 [1, 2, 3] 2 = 0"
proof -
  have h: "(0 :: nat) < 2" "(2 :: nat) \<le> 2 + 1" "(2 :: nat) < length [1, 2, 3 :: real]"
    by simp_all
  have z: "avg_loss 2 [1, 2, 3] 2 = 0"
    by (simp add: avg_loss_def losses_def ewm_def)
  from rsi_range [OF h] z show ?thesis
    by auto
qed

end
